theory Spec2Isabelle
  imports Main "HOL-Library.Word"
begin

unbundle bit_operations_syntax

section \<open>Errors\<close>

text \<open>
  \<^verbatim>\<open>EmulatorException::ErrorCode\<close> of \<^verbatim>\<open>emulator_enhanced.h\<close>. An exception carries its
  code and its message (\<^verbatim>\<open>what()\<close>). An out-of-range \<^verbatim>\<open>operator[]\<close> on a
  \<^verbatim>\<open>std::vector\<close> is undefined behaviour in C++; the model names it instead of
  returning an arbitrary value.
\<close>

datatype ErrorCode =
  INVALID_OPCODE | MEMORY_ACCESS_VIOLATION | STACK_OVERFLOW | INVALID_INTERRUPT

datatype fault = EmulatorException ErrorCode string | UndefinedBehaviour

section \<open>Interrupt controller\<close>

record InterruptRequest =
  code :: "8 word"
  priority :: "8 word"
  pending :: bool

text \<open>
  \<^verbatim>\<open>std::queue<InterruptRequest> int_queue\<close>: a list, \<^verbatim>\<open>push\<close> appends at the back,
  \<^verbatim>\<open>front\<close> is the head and \<^verbatim>\<open>pop\<close> removes the head.
\<close>

record InterruptController =
  int_queue :: "InterruptRequest list"

definition InterruptController_init :: InterruptController where
  "InterruptController_init = \<lparr>int_queue = []\<rparr>"

definition queueInterrupt :: "8 word \<Rightarrow> 8 word \<Rightarrow> InterruptController \<Rightarrow> InterruptController" where
  "queueInterrupt cd prio ic =
     (let req = \<lparr>code = cd, priority = prio, pending = True\<rparr>
      in ic\<lparr>int_queue := int_queue ic @ [req]\<rparr>)"

definition hasInterrupt :: "InterruptController \<Rightarrow> bool" where
  "hasInterrupt ic = (int_queue ic \<noteq> [])"

definition getNextInterrupt ::
  "InterruptController \<Rightarrow> (fault + InterruptRequest) \<times> InterruptController" where
  "getNextInterrupt ic =
     (case int_queue ic of
        [] \<Rightarrow> (Inl (EmulatorException INVALID_INTERRUPT ''No pending interrupts''), ic)
      | req # rest \<Rightarrow> (Inr req, ic\<lparr>int_queue := rest\<rparr>))"

section \<open>CPU state\<close>

text \<open>
  \<^verbatim>\<open>ConditionCodes\<close> and \<^verbatim>\<open>State8080\<close> of \<^verbatim>\<open>8080emuCPP.h\<close>. The one-bit fields are
  booleans; the one-letter field names of the source carry a prefix here, since a record
  field is a constant of the theory.
\<close>

record ConditionCodes =
  cc_cy :: bool
  cc_pad :: bool
  cc_p :: bool
  cc_pad2 :: bool
  cc_ac :: bool
  cc_pad3 :: bool
  cc_z :: bool
  cc_s :: bool

record State8080 =
  reg_a :: "8 word"
  reg_b :: "8 word"
  reg_c :: "8 word"
  reg_d :: "8 word"
  reg_e :: "8 word"
  reg_h :: "8 word"
  reg_l :: "8 word"
  sp :: "16 word"
  pc :: "16 word"
  cc :: ConditionCodes
  int_enable :: "8 word"

definition State8080_zero :: State8080 where
  "State8080_zero =
     \<lparr>reg_a = 0, reg_b = 0, reg_c = 0, reg_d = 0, reg_e = 0, reg_h = 0, reg_l = 0,
      sp = 0, pc = 0,
      cc = \<lparr>cc_cy = False, cc_pad = False, cc_p = False, cc_pad2 = False,
            cc_ac = False, cc_pad3 = False, cc_z = False, cc_s = False\<rparr>,
      int_enable = 0\<rparr>"

section \<open>Instruction tracer\<close>

record TraceEntry =
  te_pc :: "16 word"
  te_opcode :: "8 word"
  te_state :: State8080
  te_cycle :: "64 word"

text \<open>
  \<^verbatim>\<open>std::vector<TraceEntry> trace_buffer\<close> is a list with the oldest entry first;
  \<^verbatim>\<open>size_t max_entries\<close> is a natural number.
\<close>

record InstructionTracer =
  trace_buffer :: "TraceEntry list"
  max_entries :: nat

definition InstructionTracer_init :: InstructionTracer where
  "InstructionTracer_init = \<lparr>trace_buffer = [], max_entries = 1000\<rparr>"

definition addTrace ::
  "16 word \<Rightarrow> 8 word \<Rightarrow> State8080 \<Rightarrow> 64 word \<Rightarrow> InstructionTracer \<Rightarrow> InstructionTracer" where
  "addTrace p opc st cyc tr =
     (let entry = \<lparr>te_pc = p, te_opcode = opc, te_state = st, te_cycle = cyc\<rparr>;
          pushed = trace_buffer tr @ [entry]
      in if length pushed > max_entries tr
         then tr\<lparr>trace_buffer := tl pushed\<rparr>
         else tr\<lparr>trace_buffer := pushed\<rparr>)"

definition clear_trace :: "InstructionTracer \<Rightarrow> InstructionTracer" where
  "clear_trace tr = tr\<lparr>trace_buffer := []\<rparr>"

definition setMaxEntries :: "nat \<Rightarrow> InstructionTracer \<Rightarrow> InstructionTracer" where
  "setMaxEntries mx tr = tr\<lparr>max_entries := mx\<rparr>"

text \<open>A run of \<^verbatim>\<open>addTrace\<close> calls, one per element, in order.\<close>

definition mkTraceEntry :: "16 word \<times> 8 word \<times> State8080 \<times> 64 word \<Rightarrow> TraceEntry" where
  "mkTraceEntry x =
     (case x of (p, opc, st, cyc) \<Rightarrow>
        \<lparr>te_pc = p, te_opcode = opc, te_state = st, te_cycle = cyc\<rparr>)"

definition addTraces ::
  "(16 word \<times> 8 word \<times> State8080 \<times> 64 word) list \<Rightarrow> InstructionTracer \<Rightarrow> InstructionTracer" where
  "addTraces xs tr = fold (\<lambda>x t. case x of (p, opc, st, cyc) \<Rightarrow> addTrace p opc st cyc t) xs tr"

section \<open>Memory bank controller\<close>

record BankMapping =
  bank :: "8 word"
  baseAddr :: "16 word"
  size_m :: "16 word"
  readOnly :: bool

text \<open>
  \<^verbatim>\<open>std::vector<std::unique_ptr<uint8_t[]>> banks\<close>: a list of byte arrays, each array a
  function from the offset to the byte (the code reads and writes offsets below
  \<^verbatim>\<open>bankSize\<close> only). \<^verbatim>\<open>size_t bankSize\<close> is a natural number; sums with it are taken in
  \<^verbatim>\<open>size_t\<close> and do not wrap for any bank size that can be allocated.
\<close>

record MemoryBankController =
  banks :: "(nat \<Rightarrow> 8 word) list"
  currentBank :: "8 word"
  bankSize :: nat
  mappings :: "BankMapping list"

text \<open>The constructor: \<^verbatim>\<open>make_unique<uint8_t[]>(bank_size)\<close> zero-initialises each bank.\<close>

definition MemoryBankController_init :: "nat \<Rightarrow> nat \<Rightarrow> MemoryBankController" where
  "MemoryBankController_init num_banks bank_size =
     \<lparr>banks = replicate num_banks (\<lambda>_. 0), currentBank = 0,
      bankSize = bank_size, mappings = []\<rparr>"

text \<open>
  Every method body is a \<^verbatim>\<open>try\<close> block whose handler for \<^verbatim>\<open>std::exception\<close> catches the
  \<^verbatim>\<open>EmulatorException\<close> thrown inside and throws a new one with code
  \<^verbatim>\<open>MEMORY_ACCESS_VIOLATION\<close> and the same message.
\<close>

definition rethrow :: "fault \<Rightarrow> fault" where
  "rethrow f =
     (case f of
        EmulatorException c msg \<Rightarrow> EmulatorException MEMORY_ACCESS_VIOLATION msg
      | UndefinedBehaviour \<Rightarrow> UndefinedBehaviour)"

definition try_catch :: "fault option \<times> 's \<Rightarrow> fault option \<times> 's" where
  "try_catch r = (case r of (Some f, s) \<Rightarrow> (Some (rethrow f), s) | (None, s) \<Rightarrow> (None, s))"

definition try_catch_value :: "fault + 'a \<Rightarrow> fault + 'a" where
  "try_catch_value r = (case r of Inl f \<Rightarrow> Inl (rethrow f) | Inr x \<Rightarrow> Inr x)"

text \<open>
  \<^verbatim>\<open>switchBank\<close>: the loop over the mappings of the outgoing bank has an empty body (two
  comments only), so it has no effect and only the assignment to \<^verbatim>\<open>currentBank\<close> remains.
\<close>

definition switchBank :: "8 word \<Rightarrow> MemoryBankController \<Rightarrow> fault option \<times> MemoryBankController" where
  "switchBank b mbc =
     try_catch
       (if unat b \<ge> length (banks mbc)
        then (Some (EmulatorException MEMORY_ACCESS_VIOLATION ''Invalid bank number''), mbc)
        else (None, mbc\<lparr>currentBank := b\<rparr>))"

definition getCurrentBank :: "MemoryBankController \<Rightarrow> 8 word" where
  "getCurrentBank mbc = currentBank mbc"

text \<open>The address test shared by \<^verbatim>\<open>mapMemory\<close>, \<^verbatim>\<open>read\<close> and \<^verbatim>\<open>write\<close>:
  \<^verbatim>\<open>address >= mapping.baseAddr && address < mapping.baseAddr + mapping.size\<close>, computed in
  \<^verbatim>\<open>int\<close> after integer promotion, so without wrap-around.\<close>

definition in_mapping :: "BankMapping \<Rightarrow> 16 word \<Rightarrow> bool" where
  "in_mapping m address =
     (unat address \<ge> unat (baseAddr m) \<and> unat address < unat (baseAddr m) + unat (size_m m))"

text \<open>The overlap loop of \<^verbatim>\<open>mapMemory\<close>: \<open>True\<close> when some existing mapping makes it throw.\<close>

fun overlap_check :: "16 word \<Rightarrow> nat \<Rightarrow> BankMapping list \<Rightarrow> bool" where
  "overlap_check address bsz [] = False"
| "overlap_check address bsz (m # ms) =
     (if in_mapping m address
         \<or> (unat address + bsz > unat (baseAddr m)
            \<and> unat address + bsz \<le> unat (baseAddr m) + unat (size_m m))
      then True
      else overlap_check address bsz ms)"

definition mapMemory ::
  "16 word \<Rightarrow> 8 word \<Rightarrow> MemoryBankController \<Rightarrow> fault option \<times> MemoryBankController" where
  "mapMemory address b mbc =
     try_catch
       (if unat b \<ge> length (banks mbc)
        then (Some (EmulatorException MEMORY_ACCESS_VIOLATION ''Invalid bank number''), mbc)
        else if overlap_check address (bankSize mbc) (mappings mbc)
        then (Some (EmulatorException MEMORY_ACCESS_VIOLATION ''Memory mapping overlap''), mbc)
        else if unat address + bankSize mbc > 0xFFFF
        then (Some (EmulatorException MEMORY_ACCESS_VIOLATION
                      ''Memory mapping exceeds address space''), mbc)
        else (None, mbc\<lparr>mappings := mappings mbc @
                [\<lparr>bank = b, baseAddr = address,
                  size_m = of_nat (bankSize mbc), readOnly = False\<rparr>]\<rparr>))"

text \<open>\<^verbatim>\<open>banks[i][offset]\<close>, read and written; an index past the vector is undefined
  behaviour.\<close>

definition bank_load :: "MemoryBankController \<Rightarrow> nat \<Rightarrow> nat \<Rightarrow> fault + 8 word" where
  "bank_load mbc i off =
     (if i < length (banks mbc) then Inr ((banks mbc ! i) off) else Inl UndefinedBehaviour)"

definition bank_store ::
  "MemoryBankController \<Rightarrow> nat \<Rightarrow> nat \<Rightarrow> 8 word \<Rightarrow> fault option \<times> MemoryBankController" where
  "bank_store mbc i off v =
     (if i < length (banks mbc)
      then (None, mbc\<lparr>banks := (banks mbc)[i := ((banks mbc) ! i)(off := v)]\<rparr>)
      else (Some UndefinedBehaviour, mbc))"

text \<open>The body of the loop of \<^verbatim>\<open>read\<close> for a mapping that contains the address, and the
  code after the loop.\<close>

definition read_mapped :: "MemoryBankController \<Rightarrow> BankMapping \<Rightarrow> 16 word \<Rightarrow> fault + 8 word" where
  "read_mapped mbc m address =
     (let bankOffset = address - baseAddr m
      in if unat bankOffset \<ge> bankSize mbc
         then Inl (EmulatorException MEMORY_ACCESS_VIOLATION ''Bank offset out of range'')
         else bank_load mbc (unat (bank m)) (unat bankOffset))"

definition read_current :: "MemoryBankController \<Rightarrow> 16 word \<Rightarrow> fault + 8 word" where
  "read_current mbc address =
     (if unat address \<ge> bankSize mbc
      then Inl (EmulatorException MEMORY_ACCESS_VIOLATION ''Address out of range'')
      else bank_load mbc (unat (currentBank mbc)) (unat address))"

fun read_loop :: "MemoryBankController \<Rightarrow> 16 word \<Rightarrow> BankMapping list \<Rightarrow> fault + 8 word" where
  "read_loop mbc address [] = read_current mbc address"
| "read_loop mbc address (m # ms) =
     (if in_mapping m address then read_mapped mbc m address else read_loop mbc address ms)"

definition read :: "MemoryBankController \<Rightarrow> 16 word \<Rightarrow> fault + 8 word" where
  "read mbc address = try_catch_value (read_loop mbc address (mappings mbc))"

definition write_mapped ::
  "MemoryBankController \<Rightarrow> BankMapping \<Rightarrow> 16 word \<Rightarrow> 8 word
     \<Rightarrow> fault option \<times> MemoryBankController" where
  "write_mapped mbc m address v =
     (if readOnly m
      then (Some (EmulatorException MEMORY_ACCESS_VIOLATION ''Write to read-only memory''), mbc)
      else let bankOffset = address - baseAddr m
           in if unat bankOffset \<ge> bankSize mbc
              then (Some (EmulatorException MEMORY_ACCESS_VIOLATION
                            ''Bank offset out of range''), mbc)
              else bank_store mbc (unat (bank m)) (unat bankOffset) v)"

definition write_current ::
  "MemoryBankController \<Rightarrow> 16 word \<Rightarrow> 8 word \<Rightarrow> fault option \<times> MemoryBankController" where
  "write_current mbc address v =
     (if unat address \<ge> bankSize mbc
      then (Some (EmulatorException MEMORY_ACCESS_VIOLATION ''Address out of range''), mbc)
      else bank_store mbc (unat (currentBank mbc)) (unat address) v)"

fun write_loop ::
  "MemoryBankController \<Rightarrow> 16 word \<Rightarrow> 8 word \<Rightarrow> BankMapping list
     \<Rightarrow> fault option \<times> MemoryBankController" where
  "write_loop mbc address v [] = write_current mbc address v"
| "write_loop mbc address v (m # ms) =
     (if in_mapping m address then write_mapped mbc m address v
      else write_loop mbc address v ms)"

definition "write" ::
  "MemoryBankController \<Rightarrow> 16 word \<Rightarrow> 8 word \<Rightarrow> fault option \<times> MemoryBankController" where
  "write mbc address v = try_catch (write_loop mbc address v (mappings mbc))"

text \<open>
  The controllers that the public interface can produce: the constructor, then any run of
  \<^verbatim>\<open>switchBank\<close>, \<^verbatim>\<open>mapMemory\<close> and \<^verbatim>\<open>write\<close> calls, failed ones included (\<^verbatim>\<open>read\<close> and
  \<^verbatim>\<open>getCurrentBank\<close> change nothing).
\<close>

inductive reachable :: "MemoryBankController \<Rightarrow> bool" where
  init: "reachable (MemoryBankController_init num_banks bank_size)"
| switch: "reachable mbc \<Longrightarrow> reachable (snd (switchBank b mbc))"
| map: "reachable mbc \<Longrightarrow> reachable (snd (mapMemory address b mbc))"
| wr: "reachable mbc \<Longrightarrow> reachable (snd (write mbc address v))"

text \<open>The guest addresses a mapping covers, and the range a new mapping would cover.\<close>

definition mapping_range :: "BankMapping \<Rightarrow> nat set" where
  "mapping_range m = {unat (baseAddr m) ..< unat (baseAddr m) + unat (size_m m)}"

definition new_range :: "16 word \<Rightarrow> nat \<Rightarrow> nat set" where
  "new_range address bsz = {unat address ..< unat address + bsz}"

text \<open>No two mappings of a table cover a common guest address.\<close>

definition no_common_address :: "BankMapping list \<Rightarrow> bool" where
  "no_common_address ms =
     (\<forall>i j. i < j \<and> j < length ms \<longrightarrow>
        (\<forall>address. \<not> (in_mapping (ms ! i) address \<and> in_mapping (ms ! j) address)))"

text \<open>Invariants of the mapping table: every mapping has the size of a bank, and the
  ranges of the mappings are pairwise disjoint.\<close>

definition sized_mappings :: "MemoryBankController \<Rightarrow> bool" where
  "sized_mappings mbc =
     (\<forall>m \<in> set (mappings mbc). unat (size_m m) = bankSize mbc)"

definition disjoint_mappings :: "BankMapping list \<Rightarrow> bool" where
  "disjoint_mappings ms = sorted_wrt (\<lambda>m m'. mapping_range m \<inter> mapping_range m' = {}) ms"

text \<open>A controller with the default four banks of \<^verbatim>\<open>0x4000\<close> bytes and bank 1 mapped at
  \<^verbatim>\<open>0x8000\<close>.\<close>

definition example_mbc :: MemoryBankController where
  "example_mbc = snd (mapMemory 0x8000 1 (MemoryBankController_init 4 0x4000))"

section \<open>Guest memory and the byte cache\<close>

text \<open>
  Modelled from the spec: the memory object behind \<^verbatim>\<open>MemoryBase::at\<close> (\<^verbatim>\<open>memory_manager.h\<close>
  is not among the available sources). The spec gives it a 16-bit guest address space of
  bytes with \<^verbatim>\<open>read(addr)\<close> and \<^verbatim>\<open>write(addr, value)\<close>; \<^verbatim>\<open>at(addr)\<close> is the reference to
  the byte at \<^verbatim>\<open>addr\<close>.
\<close>

type_synonym memory = "16 word \<Rightarrow> 8 word"

record CacheEntry =
  ce_address :: "16 word"
  ce_value :: "8 word"
  ce_valid :: bool
  ce_dirty :: bool

text \<open>
  \<^verbatim>\<open>std::array<CacheEntry, 256> cache\<close>, indexed by \<^verbatim>\<open>address & (CACHE_SIZE - 1)\<close>: a
  function from the 8-bit index. The \<^verbatim>\<open>memory\<close> pointer of the cache is the memory of
  the CPU; the operations take that memory and return it.
\<close>

record MemoryCache =
  cache :: "8 word \<Rightarrow> CacheEntry"

text \<open>The constructor clears \<^verbatim>\<open>valid\<close> and \<^verbatim>\<open>dirty\<close>; address and value are not
  initialised by the source and are never read while \<^verbatim>\<open>valid\<close> is false.\<close>

definition MemoryCache_init :: MemoryCache where
  "MemoryCache_init =
     \<lparr>cache = (\<lambda>_. \<lparr>ce_address = 0, ce_value = 0, ce_valid = False, ce_dirty = False\<rparr>)\<rparr>"

definition cache_index :: "16 word \<Rightarrow> 8 word" where
  "cache_index address = ucast (address AND 0xFF)"

definition cache_read :: "16 word \<Rightarrow> MemoryCache \<times> memory \<Rightarrow> 8 word \<times> MemoryCache \<times> memory" where
  "cache_read address cm =
     (case cm of (mc, mem) \<Rightarrow>
        let index = cache_index address; entry = cache mc index
        in if ce_valid entry \<and> ce_address entry = address
           then (ce_value entry, mc, mem)
           else let mem1 = (if ce_valid entry \<and> ce_dirty entry
                            then mem(ce_address entry := ce_value entry) else mem);
                    entry1 = \<lparr>ce_address = address, ce_value = mem1 address,
                              ce_valid = True, ce_dirty = False\<rparr>
                in (ce_value entry1, mc\<lparr>cache := (cache mc)(index := entry1)\<rparr>, mem1))"

definition cache_write :: "16 word \<Rightarrow> 8 word \<Rightarrow> MemoryCache \<Rightarrow> MemoryCache" where
  "cache_write address v mc =
     mc\<lparr>cache := (cache mc)(cache_index address :=
           \<lparr>ce_address = address, ce_value = v, ce_valid = True, ce_dirty = True\<rparr>)\<rparr>"

text \<open>\<^verbatim>\<open>flush\<close>: the loop visits the 256 entries in index order. The memory of the model
  has a byte at every 16-bit address, so \<^verbatim>\<open>memory->at\<close> does not throw and the handlers
  of \<^verbatim>\<open>write\<close> and \<^verbatim>\<open>flush\<close> ("Cache write failed", "Cache flush failed") are never
  entered.\<close>

definition flush_entry :: "8 word \<Rightarrow> MemoryCache \<times> memory \<Rightarrow> MemoryCache \<times> memory" where
  "flush_entry i cm =
     (case cm of (mc, mem) \<Rightarrow>
        let entry = cache mc i
        in if ce_valid entry \<and> ce_dirty entry
           then (mc\<lparr>cache := (cache mc)(i := entry\<lparr>ce_dirty := False\<rparr>)\<rparr>,
                 mem(ce_address entry := ce_value entry))
           else (mc, mem))"

definition flush :: "MemoryCache \<times> memory \<Rightarrow> MemoryCache \<times> memory" where
  "flush cm = fold flush_entry (map of_nat [0 ..< 256]) cm"

section \<open>Instruction table\<close>

record DecodedInstruction =
  di_length :: "8 word"
  di_cycles :: "8 word"
  di_affects_flags :: bool
  di_memory_access :: bool

definition DI :: "8 word \<Rightarrow> 8 word \<Rightarrow> bool \<Rightarrow> bool \<Rightarrow> DecodedInstruction" where
  "DI len cyc fl ma =
     \<lparr>di_length = len, di_cycles = cyc, di_affects_flags = fl, di_memory_access = ma\<rparr>"

text \<open>The single assignments of \<^verbatim>\<open>createInstructionTable\<close>, in source order.\<close>

definition instruction_entries :: "(8 word \<times> DecodedInstruction) list" where
  "instruction_entries =
     [(0x00, DI 1 4 False False), (0x01, DI 3 10 False False), (0x02, DI 1 7 False True),
      (0x03, DI 1 5 False False), (0x04, DI 1 5 True False), (0x05, DI 1 5 True False),
      (0x06, DI 2 7 False False), (0x07, DI 1 4 True False), (0x08, DI 1 4 False False),
      (0x09, DI 1 10 False False), (0x0A, DI 1 7 False True), (0x0B, DI 1 5 False False),
      (0x0C, DI 1 5 True False), (0x0D, DI 1 5 True False), (0x0E, DI 2 7 False False),
      (0x0F, DI 1 4 True False),
      (0x11, DI 3 10 False False), (0x12, DI 1 7 False True), (0x13, DI 1 5 False False),
      (0x14, DI 1 5 True False), (0x15, DI 1 5 True False), (0x16, DI 2 7 False False),
      (0x17, DI 1 4 True False),
      (0x21, DI 3 10 False False), (0x22, DI 3 16 False True), (0x23, DI 1 5 False False),
      (0x24, DI 1 5 True False), (0x25, DI 1 5 True False), (0x26, DI 2 7 False False),
      (0x27, DI 1 4 True False),
      (0x31, DI 3 10 False False), (0x32, DI 3 13 False True), (0x33, DI 1 5 False False),
      (0x34, DI 1 10 True True), (0x35, DI 1 10 True True), (0x36, DI 2 10 False True),
      (0x37, DI 1 4 True False),
      (0xC0, DI 1 11 False False), (0xC1, DI 1 10 False False), (0xC2, DI 3 10 False False),
      (0xC3, DI 3 10 False False), (0xC4, DI 3 17 False False), (0xC5, DI 1 11 False False),
      (0xC6, DI 2 7 True False), (0xC7, DI 1 11 False False),
      (0xC8, DI 1 11 False False), (0xC9, DI 1 10 False False), (0xCA, DI 3 10 False False),
      (0xCC, DI 3 17 False False), (0xCD, DI 3 17 False False), (0xCE, DI 2 7 True False),
      (0xCF, DI 1 11 False False),
      (0xD3, DI 2 10 False False), (0xDB, DI 2 10 False False), (0xE3, DI 1 18 False False),
      (0xE9, DI 1 5 False False), (0xEB, DI 1 5 False False), (0xF3, DI 1 4 False False),
      (0xFB, DI 1 4 False False)]"

text \<open>
  \<^verbatim>\<open>INSTRUCTION_TABLE\<close>: every entry starts as \<^verbatim>\<open>{1, 4, false, false}\<close>; the loops over
  \<^verbatim>\<open>0x40..0x7F\<close> (register moves) and \<^verbatim>\<open>0x80..0xBF\<close> (arithmetic and logic) and the
  single assignments then overwrite it. No opcode is assigned twice with different
  values, so the order of the assignments does not matter.
\<close>

definition INSTRUCTION_TABLE :: "8 word \<Rightarrow> DecodedInstruction" where
  "INSTRUCTION_TABLE opc =
     (case map_of instruction_entries opc of
        Some d \<Rightarrow> d
      | None \<Rightarrow>
          if 0x40 \<le> opc \<and> opc \<le> 0x7F
          then (let isMemoryOp = (opc AND 0x07 = 0x06 \<or> opc AND 0x3F = 0x36)
                in DI 1 (if isMemoryOp then 7 else 5) False isMemoryOp)
          else if 0x80 \<le> opc \<and> opc \<le> 0xBF
          then (let isMemoryOp = (opc AND 0x07 = 0x06)
                in DI 1 (if isMemoryOp then 7 else 4) True isMemoryOp)
          else DI 1 4 False False)"

section \<open>Profiler and state manager\<close>

record InstructionProfile =
  execution_count :: "64 word"
  total_cycles :: "64 word"
  max_cycles :: "64 word"
  cache_misses :: "64 word"

record Profiler =
  profiles :: "8 word \<Rightarrow> InstructionProfile"

definition recordExecution :: "8 word \<Rightarrow> 64 word \<Rightarrow> bool \<Rightarrow> Profiler \<Rightarrow> Profiler" where
  "recordExecution opc cyc cache_miss pr =
     (let profile = profiles pr opc;
          profile1 = profile\<lparr>execution_count := execution_count profile + 1,
                             total_cycles := total_cycles profile + cyc,
                             max_cycles := max (max_cycles profile) cyc\<rparr>;
          profile2 = (if cache_miss
                      then profile1\<lparr>cache_misses := cache_misses profile1 + 1\<rparr>
                      else profile1)
      in pr\<lparr>profiles := (profiles pr)(opc := profile2)\<rparr>)"

definition Profiler_reset :: "Profiler \<Rightarrow> Profiler" where
  "Profiler_reset pr =
     pr\<lparr>profiles := (\<lambda>_. \<lparr>execution_count = 0, total_cycles = 0, max_cycles = 0,
                             cache_misses = 0\<rparr>)\<rparr>"

record Snapshot =
  description :: string
  snap_state :: State8080
  snap_memory :: "8 word list"

record StateManager =
  snapshots :: "Snapshot list"

section \<open>The CPU and the enhanced step\<close>

text \<open>
  The data members of \<^verbatim>\<open>CPU8080\<close> (\<^verbatim>\<open>8080emuCPP.h\<close>). \<^verbatim>\<open>state\<close> and \<^verbatim>\<open>memory\<close> are pointers to
  objects the CPU works on; \<^verbatim>\<open>lastOpcode\<close> points into guest memory or is null.
\<close>

record CPU8080 =
  interrupt :: "8 word"
  interrupt_code :: "8 word"
  quantum :: "8 word"
  scheduler_timer :: "8 word"
  initialized :: "8 word"
  int_buffer :: "16 word"
  state :: State8080
  memory :: memory
  lastOpcode :: "16 word option"

record CachedInstruction =
  ci_length :: "8 word"
  ci_cycles :: "8 word"
  ci_affects_flags :: bool
  result_a :: "8 word"
  result_b :: "8 word"
  result_c :: "8 word"
  result_d :: "8 word"
  result_e :: "8 word"
  result_h :: "8 word"
  result_l :: "8 word"

text \<open>
  \<^verbatim>\<open>EnhancedCPU8080\<close> derives from \<^verbatim>\<open>CPU8080\<close>: the base-class part is the field
  \<open>cpu8080\<close>. \<^verbatim>\<open>instructionCache\<close> is an \<^verbatim>\<open>unordered_map\<close> from the PC to the cached
  instruction.
\<close>

record EnhancedCPU8080 =
  cpu8080 :: CPU8080
  tracingEnabled :: bool
  profilingEnabled :: bool
  bankingEnabled :: bool
  tracer :: InstructionTracer
  intController :: InterruptController
  memoryBanking :: MemoryBankController
  stateManager :: StateManager
  profiler :: Profiler
  instructionCache :: "16 word \<rightharpoonup> CachedInstruction"
  memoryCache :: MemoryCache
  cacheFlushCounter :: "32 word"

text \<open>
  The base-class step \<^verbatim>\<open>CPU8080::Emulate8080p(debug)\<close> is called by the enhanced step, and
  its source is not among the available sources. It is a parameter of the model: a
  function from the debug argument and the base-class part of the CPU to the returned
  cycle count, or the exception it throws, and the base-class part after the call. It
  cannot reach the private members of the derived class.
\<close>

type_synonym base_step = "int \<Rightarrow> CPU8080 \<Rightarrow> (fault + 32 word) \<times> CPU8080"

text \<open>The fast path of \<^verbatim>\<open>EnhancedCPU8080::Emulate8080p\<close>: the cached registers are stored,
  the PC advances by the cached length, and the cached cycle count is returned.\<close>

definition apply_cached ::
  "CachedInstruction \<Rightarrow> 8 word \<Rightarrow> EnhancedCPU8080 \<Rightarrow> (fault + 32 word) \<times> EnhancedCPU8080" where
  "apply_cached cached opcode e =
     (let st = state (cpu8080 e);
          st1 = st\<lparr>reg_a := result_a cached, reg_b := result_b cached,
                    reg_c := result_c cached, reg_d := result_d cached,
                    reg_e := result_e cached, reg_h := result_h cached,
                    reg_l := result_l cached,
                    pc := pc st + ucast (ci_length cached)\<rparr>;
          current_cycle = (ucast (ci_cycles cached) :: 64 word);
          e1 = e\<lparr>cpu8080 := (cpu8080 e)\<lparr>state := st1\<rparr>\<rparr>;
          e2 = (if profilingEnabled e1
                then e1\<lparr>profiler := recordExecution opcode current_cycle False (profiler e1)\<rparr>
                else e1)
      in (Inr (ucast current_cycle), e2))"

text \<open>
  The rest of the step, "cache miss or debug mode - execute normally". \<open>pc0\<close> is the PC on
  entry: \<^verbatim>\<open>opcode\<close> is a pointer to the byte at \<open>pc0\<close> and is read again after the base
  step. \<open>duration\<close> is the elapsed time the two clock readings give.
\<close>

definition execute_normally ::
  "base_step \<Rightarrow> 64 word \<Rightarrow> int \<Rightarrow> 16 word \<Rightarrow> EnhancedCPU8080
     \<Rightarrow> (fault + 32 word) \<times> EnhancedCPU8080" where
  "execute_normally base duration debug pc0 e =
     (case base debug (cpu8080 e) of
        (Inl f, b) \<Rightarrow> (Inl f, e\<lparr>cpu8080 := b\<rparr>)
      | (Inr cyc, b) \<Rightarrow>
          let current_cycle = (ucast cyc :: 64 word);
              e1 = e\<lparr>cpu8080 := b\<rparr>;
              opcode = memory b pc0;
              e2 = (if debug = 0 \<and> card (dom (instructionCache e1)) < 1024
                    then let len = di_length (INSTRUCTION_TABLE opcode);
                             cached = \<lparr>ci_length = len,
                                       ci_cycles = ucast current_cycle,
                                       ci_affects_flags = di_affects_flags (INSTRUCTION_TABLE opcode),
                                       result_a = reg_a (state b), result_b = reg_b (state b),
                                       result_c = reg_c (state b), result_d = reg_d (state b),
                                       result_e = reg_e (state b), result_h = reg_h (state b),
                                       result_l = reg_l (state b)\<rparr>
                         in e1\<lparr>instructionCache :=
                                 (instructionCache e1)(pc (state b) - ucast len \<mapsto> cached)\<rparr>
                    else e1);
              e3 = (if tracingEnabled e2
                    then e2\<lparr>tracer := addTrace (pc (state b)) opcode (state b) current_cycle
                                         (tracer e2)\<rparr>
                    else e2);
              e4 = (if profilingEnabled e3
                    then e3\<lparr>profiler := recordExecution opcode current_cycle
                                           (duration > current_cycle * 10) (profiler e3)\<rparr>
                    else e3);
              counter = cacheFlushCounter e4 + 1;
              e5 = (if counter \<ge> 1000
                    then (case flush (memoryCache e4, memory (cpu8080 e4)) of
                            (mc, mem) \<Rightarrow>
                              e4\<lparr>memoryCache := mc,
                                 cpu8080 := (cpu8080 e4)\<lparr>memory := mem\<rparr>,
                                 cacheFlushCounter := 0\<rparr>)
                    else e4\<lparr>cacheFlushCounter := counter\<rparr>)
          in (Inr (ucast current_cycle), e5))"

definition Emulate8080p ::
  "base_step \<Rightarrow> 64 word \<Rightarrow> int \<Rightarrow> EnhancedCPU8080 \<Rightarrow> (fault + 32 word) \<times> EnhancedCPU8080" where
  "Emulate8080p base duration debug e =
     (let pc0 = pc (state (cpu8080 e));
          opcode = memory (cpu8080 e) pc0
      in if debug = 0
         then (case instructionCache e pc0 of
                 Some cached \<Rightarrow>
                   if \<not> ci_affects_flags cached \<and> \<not> di_memory_access (INSTRUCTION_TABLE opcode)
                   then apply_cached cached opcode e
                   else execute_normally base duration debug pc0 e
               | None \<Rightarrow> execute_normally base duration debug pc0 e)
         else execute_normally base duration debug pc0 e)"

text \<open>The instruction cache holds an entry for the current PC that the step replays
  instead of executing the instruction.\<close>

definition replayable :: "EnhancedCPU8080 \<Rightarrow> bool" where
  "replayable e =
     (case instructionCache e (pc (state (cpu8080 e))) of
        Some cached \<Rightarrow>
          \<not> ci_affects_flags cached
          \<and> \<not> di_memory_access
                (INSTRUCTION_TABLE (memory (cpu8080 e) (pc (state (cpu8080 e)))))
      | None \<Rightarrow> False)"

text \<open>\<^verbatim>\<open>getMemoryBankController().switchBank(bank)\<close> on an enhanced CPU: the call works on
  the member \<^verbatim>\<open>memoryBanking\<close>.\<close>

definition cpu_switchBank :: "8 word \<Rightarrow> EnhancedCPU8080 \<Rightarrow> fault option \<times> EnhancedCPU8080" where
  "cpu_switchBank b e =
     (case switchBank b (memoryBanking e) of
        (r, mbc) \<Rightarrow> (r, e\<lparr>memoryBanking := mbc\<rparr>))"

text \<open>
  Modelled from the spec: the base-class step \<^verbatim>\<open>CPU8080::Emulate8080p\<close> (its source is not
  among the available sources) on the NOP opcode, for use as a concrete base step in the
  examples. Spec 4.4: the interpreter fetches one byte at PC, advances PC by 1 and
  dispatches; NOP has no other effect and reports 4 base cycles; an opcode the decoder
  does not implement fails with \<^verbatim>\<open>InvalidOpcode\<close>. Spec 4.7: debug mode is purely
  observational. This fragment implements NOP only, and it leaves the scheduler timer
  alone (spec 9 notes that the source never increments it).
\<close>

definition base_step_NOP :: base_step where
  "base_step_NOP debug c =
     (if memory c (pc (state c)) = 0x00
      then (Inr 4, c\<lparr>state := (state c)\<lparr>pc := pc (state c) + 1\<rparr>\<rparr>)
      else (Inl (EmulatorException INVALID_OPCODE ''Unimplemented opcode''), c))"

text \<open>An enhanced CPU as its constructor leaves it, over a zeroed state and a memory of
  NOPs, with the default quantum of 80.\<close>

definition fresh_cpu :: EnhancedCPU8080 where
  "fresh_cpu =
     \<lparr>cpu8080 = \<lparr>interrupt = 0, interrupt_code = 0, quantum = 80, scheduler_timer = 0,
                  initialized = 0, int_buffer = 256, state = State8080_zero,
                  memory = (\<lambda>_. 0), lastOpcode = None\<rparr>,
      tracingEnabled = False, profilingEnabled = False, bankingEnabled = False,
      tracer = InstructionTracer_init, intController = InterruptController_init,
      memoryBanking = MemoryBankController_init 4 0x4000,
      stateManager = \<lparr>snapshots = []\<rparr>,
      profiler = \<lparr>profiles = (\<lambda>_. \<lparr>execution_count = 0, total_cycles = 0, max_cycles = 0,
                                      cache_misses = 0\<rparr>)\<rparr>,
      instructionCache = Map.empty, memoryCache = MemoryCache_init, cacheFlushCounter = 0\<rparr>"

text \<open>Every valid entry sits at the index of its address, as \<^verbatim>\<open>read\<close> and \<^verbatim>\<open>write\<close> of the
  cache store it.\<close>

definition well_indexed :: "MemoryCache \<Rightarrow> bool" where
  "well_indexed mc =
     (\<forall>i. ce_valid (cache mc i) \<longrightarrow> cache_index (ce_address (cache mc i)) = i)"

text \<open>
  Example states. \<open>cached_cpu\<close> is the fresh CPU after one step with \<open>debug = 0\<close>: the NOP
  at address 0 has been executed and its result cached. In \<open>replay_cpu\<close> the host has then
  written A and PC through its pointer to the \<^verbatim>\<open>State8080\<close>, as the repository's tests do,
  so that the PC is at the cached NOP again; \<open>late_cpu\<close> has in addition 76 cycles on the
  public member \<^verbatim>\<open>scheduler_timer\<close>. \<open>nop_steps n\<close> is the fresh CPU after \<open>n\<close> steps with
  \<open>debug = 1\<close>.
\<close>

definition cached_cpu :: EnhancedCPU8080 where
  "cached_cpu = snd (Emulate8080p base_step_NOP 0 0 fresh_cpu)"

definition replay_cpu :: EnhancedCPU8080 where
  "replay_cpu =
     cached_cpu\<lparr>cpu8080 := (cpu8080 cached_cpu)
       \<lparr>state := (state (cpu8080 cached_cpu))\<lparr>reg_a := 7, pc := 0\<rparr>\<rparr>\<rparr>"

definition late_cpu :: EnhancedCPU8080 where
  "late_cpu = replay_cpu\<lparr>cpu8080 := (cpu8080 replay_cpu)\<lparr>scheduler_timer := 76\<rparr>\<rparr>"





section \<open>Properties of the interrupt controller\<close>

text \<open>
  C8: \<^verbatim>\<open>getNextInterrupt\<close> raises \<^verbatim>\<open>INVALID_INTERRUPT\<close> if and only if the queue is empty;
  when it raises the controller is unchanged; when it returns a request, the queue before
  the call is that request followed by the queue after the call, so exactly the returned
  request has been removed.
\<close>

theorem getNextInterrupt_raises_iff_empty:
  "((\<exists>msg. fst (getNextInterrupt ic) = Inl (EmulatorException INVALID_INTERRUPT msg))
      \<longleftrightarrow> int_queue ic = [])
   \<and> (isl (fst (getNextInterrupt ic)) \<longleftrightarrow> int_queue ic = [])
   \<and> (isl (fst (getNextInterrupt ic)) \<longrightarrow> snd (getNextInterrupt ic) = ic)
   \<and> (\<forall>req. fst (getNextInterrupt ic) = Inr req \<longrightarrow>
         int_queue ic = req # int_queue (snd (getNextInterrupt ic)))"
  by (cases "int_queue ic") (simp_all add: getNextInterrupt_def)

theorem getNextInterrupt_raises_iff_empty_witness:
  "isl (fst (getNextInterrupt InterruptController_init))
   \<and> snd (getNextInterrupt InterruptController_init) = InterruptController_init
   \<and> fst (getNextInterrupt (queueInterrupt 0xCF 0 InterruptController_init))
       = Inr \<lparr>code = 0xCF, priority = 0, pending = True\<rparr>
   \<and> int_queue (queueInterrupt 0xCF 0 InterruptController_init)
       = \<lparr>code = 0xCF, priority = 0, pending = True\<rparr>
           # int_queue (snd (getNextInterrupt (queueInterrupt 0xCF 0 InterruptController_init)))"
  using getNextInterrupt_raises_iff_empty [of InterruptController_init]
    getNextInterrupt_raises_iff_empty [of "queueInterrupt 0xCF 0 InterruptController_init"]
  by (simp add: InterruptController_init_def queueInterrupt_def getNextInterrupt_def)

text \<open>
  C1 (the code at a failing input): a request of priority 1 is queued before a request of
  priority 5; \<^verbatim>\<open>getNextInterrupt\<close> returns the request of priority 1, the one queued first,
  and leaves the request of priority 5 in the queue.
\<close>

theorem getNextInterrupt_ignores_priority:
  "getNextInterrupt (queueInterrupt 0x10 5 (queueInterrupt 0x08 1 InterruptController_init))
     = (Inr \<lparr>code = 0x08, priority = 1, pending = True\<rparr>,
        \<lparr>int_queue = [\<lparr>code = 0x10, priority = 5, pending = True\<rparr>]\<rparr>)"
  by (simp add: InterruptController_init_def queueInterrupt_def getNextInterrupt_def)

section \<open>Properties of the instruction tracer\<close>

lemma addTrace_buffer:
  "trace_buffer (addTrace p opc st cyc tr) =
     (if length (trace_buffer tr) < max_entries tr
      then trace_buffer tr @ [mkTraceEntry (p, opc, st, cyc)]
      else tl (trace_buffer tr @ [mkTraceEntry (p, opc, st, cyc)]))"
  by (simp add: addTrace_def mkTraceEntry_def Let_def)

lemma addTrace_max_entries: "max_entries (addTrace p opc st cyc tr) = max_entries tr"
  by (simp add: addTrace_def Let_def)

lemma drop_one_tl: "drop (Suc 0) ys = tl ys"
  by (simp only: drop_Suc drop_0)

lemma addTrace_buffer_drop:
  assumes "length (trace_buffer tr) \<le> max_entries tr"
  shows "trace_buffer (addTrace p opc st cyc tr) =
           drop (Suc (length (trace_buffer tr)) - max_entries tr)
             (trace_buffer tr @ [mkTraceEntry (p, opc, st, cyc)])"
proof (cases "length (trace_buffer tr) < max_entries tr")
  case True
  then show ?thesis by (simp add: addTrace_buffer)
next
  case False
  with assms have "length (trace_buffer tr) = max_entries tr" by simp
  then have k: "Suc (length (trace_buffer tr)) - max_entries tr = Suc 0" by simp
  show ?thesis
    unfolding k drop_one_tl using False by (simp only: addTrace_buffer if_False)
qed

lemma addTraces_max_entries: "max_entries (addTraces xs tr) = max_entries tr"
  by (induction xs arbitrary: tr) (simp_all add: addTraces_def addTrace_max_entries split: prod.splits)

lemma addTraces_Cons:
  "addTraces ((p, opc, st, cyc) # xs) tr = addTraces xs (addTrace p opc st cyc tr)"
  by (simp add: addTraces_def)

lemma addTraces_buffer:
  "length (trace_buffer tr) \<le> max_entries tr \<Longrightarrow>
   trace_buffer (addTraces xs tr) =
     drop (length (trace_buffer tr) + length xs - max_entries tr)
       (trace_buffer tr @ map mkTraceEntry xs)"
proof (induction xs arbitrary: tr)
  case Nil
  then show ?case by (simp add: addTraces_def)
next
  case (Cons x xs)
  obtain p opc st cyc where x: "x = (p, opc, st, cyc)" by (cases x) auto
  let ?tr = "addTrace p opc st cyc tr"
  let ?b = "trace_buffer tr"
  let ?e = "mkTraceEntry x"
  let ?ys = "map mkTraceEntry xs"
  let ?m = "max_entries tr"
  show ?case
  proof (cases "length ?b < ?m")
    case True
    then have buf: "trace_buffer ?tr = ?b @ [?e]"
      by (simp add: addTrace_buffer x)
    have len: "length (trace_buffer ?tr) \<le> max_entries ?tr"
      using True by (simp add: buf addTrace_max_entries)
    show ?thesis
      using Cons.IH [OF len] by (simp add: x addTraces_Cons buf addTrace_max_entries)
  next
    case False
    with Cons.prems have eq: "length ?b = ?m" by simp
    have buf: "trace_buffer ?tr = tl (?b @ [?e])"
      using False by (simp add: addTrace_buffer x)
    have len: "length (trace_buffer ?tr) \<le> max_entries ?tr"
      using eq by (simp add: buf addTrace_max_entries)
    have lb: "length (trace_buffer ?tr) = ?m"
      using eq by (simp add: buf)
    have ih: "trace_buffer (addTraces xs ?tr) =
                drop (length (trace_buffer ?tr) + length xs - max_entries ?tr)
                  (trace_buffer ?tr @ ?ys)"
      by (rule Cons.IH [OF len])
    have idx: "length (trace_buffer ?tr) + length xs - max_entries ?tr = length xs"
      by (simp add: lb addTrace_max_entries)
    have "trace_buffer (addTraces (x # xs) tr) = trace_buffer (addTraces xs ?tr)"
      by (simp only: x addTraces_Cons)
    also have "\<dots> = drop (length (trace_buffer ?tr) + length xs - max_entries ?tr)
                      (trace_buffer ?tr @ ?ys)"
      by (rule ih)
    also have "\<dots> = drop (length xs) (trace_buffer ?tr @ ?ys)"
      by (simp only: idx)
    also have "\<dots> = drop (length xs) (tl (?b @ [?e]) @ ?ys)"
      by (simp only: buf)
    also have "tl (?b @ [?e]) @ ?ys = tl (?b @ ?e # ?ys)"
      by (cases ?b) simp_all
    also have "drop (length xs) (tl (?b @ ?e # ?ys)) = drop (Suc (length xs)) (?b @ ?e # ?ys)"
      by (simp only: drop_Suc)
    also have "Suc (length xs) = length ?b + length (x # xs) - ?m"
      using eq by simp
    also have "?b @ ?e # ?ys = ?b @ map mkTraceEntry (x # xs)"
      by simp
    finally show ?thesis .
  qed
qed

text \<open>
  C9 (as amended): if the buffer holds at most \<^verbatim>\<open>max_entries\<close> entries before the call, it
  holds at most \<^verbatim>\<open>max_entries\<close> entries after \<^verbatim>\<open>addTrace\<close>, the bound itself is not
  changed, and the buffer after the call is the old buffer followed by the new entry, with
  the oldest entry dropped exactly when the old buffer was full. After any run of
  \<^verbatim>\<open>addTrace\<close> calls the buffer holds the most recent entries, in order.
\<close>

theorem addTrace_keeps_bound:
  assumes "length (trace_buffer tr) \<le> max_entries tr"
  shows "length (trace_buffer (addTrace p opc st cyc tr)) \<le> max_entries (addTrace p opc st cyc tr)
       \<and> max_entries (addTrace p opc st cyc tr) = max_entries tr
       \<and> trace_buffer (addTrace p opc st cyc tr) =
           (if length (trace_buffer tr) < max_entries tr
            then trace_buffer tr @ [mkTraceEntry (p, opc, st, cyc)]
            else tl (trace_buffer tr @ [mkTraceEntry (p, opc, st, cyc)]))
       \<and> trace_buffer (addTraces xs tr) =
           drop (length (trace_buffer tr) + length xs - max_entries tr)
             (trace_buffer tr @ map mkTraceEntry xs)
       \<and> length (trace_buffer (addTraces xs tr)) \<le> max_entries tr"
proof -
  have "length (trace_buffer (addTrace p opc st cyc tr)) \<le> max_entries tr"
    using assms by (simp add: addTrace_buffer_drop)
  moreover have "length (trace_buffer (addTraces xs tr)) \<le> max_entries tr"
    using assms by (simp add: addTraces_buffer)
  ultimately show ?thesis
    using assms by (simp add: addTrace_max_entries addTrace_buffer addTraces_buffer)
qed

theorem addTrace_keeps_bound_witness:
  "length (trace_buffer (addTrace 1 0 State8080_zero 4
             (addTrace 0 0 State8080_zero 4 (setMaxEntries 2 InstructionTracer_init))))
     \<le> max_entries (addTrace 1 0 State8080_zero 4
             (addTrace 0 0 State8080_zero 4 (setMaxEntries 2 InstructionTracer_init)))
   \<and> trace_buffer (addTrace 2 0 State8080_zero 4 (addTrace 1 0 State8080_zero 4
             (addTrace 0 0 State8080_zero 4 (setMaxEntries 2 InstructionTracer_init))))
     = [mkTraceEntry (1, 0, State8080_zero, 4), mkTraceEntry (2, 0, State8080_zero, 4)]
   \<and> length (trace_buffer (addTrace 2 0 State8080_zero 4 (addTrace 1 0 State8080_zero 4
             (addTrace 0 0 State8080_zero 4 (setMaxEntries 2 InstructionTracer_init))))) \<le> 2"
  using addTrace_keeps_bound [of "addTrace 1 0 State8080_zero 4
             (addTrace 0 0 State8080_zero 4 (setMaxEntries 2 InstructionTracer_init))"
           2 0 State8080_zero 4 "[]"]
  by (simp add: addTrace_def setMaxEntries_def InstructionTracer_init_def mkTraceEntry_def)

text \<open>
  C9 (counterexample to the statement without the precondition): three entries are traced
  under the default bound, \<^verbatim>\<open>setMaxEntries(1)\<close> lowers the bound, and after the next
  \<^verbatim>\<open>addTrace\<close> the buffer still holds three entries, more than the configured maximum of
  one: \<^verbatim>\<open>addTrace\<close> removes one entry at most and \<^verbatim>\<open>setMaxEntries\<close> removes none.
\<close>

theorem addTrace_exceeds_lowered_bound:
  "max_entries (addTrace 3 0 State8080_zero 4 (setMaxEntries 1
       (addTrace 2 0 State8080_zero 4 (addTrace 1 0 State8080_zero 4
         (addTrace 0 0 State8080_zero 4 InstructionTracer_init))))) = 1
   \<and> length (trace_buffer (addTrace 3 0 State8080_zero 4 (setMaxEntries 1
       (addTrace 2 0 State8080_zero 4 (addTrace 1 0 State8080_zero 4
         (addTrace 0 0 State8080_zero 4 InstructionTracer_init)))))) = 3"
  by (simp add: addTrace_def setMaxEntries_def InstructionTracer_init_def)

section \<open>Properties of the memory bank controller\<close>

lemma rethrow_MAV [simp]:
  "rethrow (EmulatorException MEMORY_ACCESS_VIOLATION msg) = EmulatorException MEMORY_ACCESS_VIOLATION msg"
  by (simp add: rethrow_def)

lemma rethrow_UB [simp]: "rethrow UndefinedBehaviour = UndefinedBehaviour"
  by (simp add: rethrow_def)

lemma read_loop_find:
  "read_loop mbc a ms =
     (case find (\<lambda>m. in_mapping m a) ms of
        Some m \<Rightarrow> read_mapped mbc m a
      | None \<Rightarrow> read_current mbc a)"
  by (induction ms) simp_all

lemma write_loop_find:
  "write_loop mbc a v ms =
     (case find (\<lambda>m. in_mapping m a) ms of
        Some m \<Rightarrow> write_mapped mbc m a v
      | None \<Rightarrow> write_current mbc a v)"
  by (induction ms) simp_all

lemma try_catch_value_read_mapped [simp]:
  "try_catch_value (read_mapped mbc m a) = read_mapped mbc m a"
  by (simp add: try_catch_value_def read_mapped_def bank_load_def Let_def)

lemma try_catch_value_read_current [simp]:
  "try_catch_value (read_current mbc a) = read_current mbc a"
  by (simp add: try_catch_value_def read_current_def bank_load_def)

lemma try_catch_write_mapped [simp]:
  "try_catch (write_mapped mbc m a v) = write_mapped mbc m a v"
  by (simp add: try_catch_def write_mapped_def bank_store_def Let_def)

lemma try_catch_write_current [simp]:
  "try_catch (write_current mbc a v) = write_current mbc a v"
  by (simp add: try_catch_def write_current_def bank_store_def)

lemma read_find:
  "read mbc a =
     (case find (\<lambda>m. in_mapping m a) (mappings mbc) of
        Some m \<Rightarrow> read_mapped mbc m a
      | None \<Rightarrow> read_current mbc a)"
  by (simp add: read_def read_loop_find split: option.splits)

lemma write_find:
  "write mbc a v =
     (case find (\<lambda>m. in_mapping m a) (mappings mbc) of
        Some m \<Rightarrow> write_mapped mbc m a v
      | None \<Rightarrow> write_current mbc a v)"
  by (simp add: write_def write_loop_find split: option.splits)

lemma bank_store_mappings:
  "mappings (snd (bank_store mbc i off v)) = mappings mbc"
  by (simp add: bank_store_def)

lemma bank_store_load:
  "fst (bank_store mbc i off v) = None \<Longrightarrow> bank_load (snd (bank_store mbc i off v)) i off = Inr v"
  by (simp add: bank_store_def bank_load_def split: if_splits)

lemma bank_store_bankSize: "bankSize (snd (bank_store mbc i off v)) = bankSize mbc"
  by (simp add: bank_store_def)

lemma bank_store_currentBank: "currentBank (snd (bank_store mbc i off v)) = currentBank mbc"
  by (simp add: bank_store_def)

lemma write_mappings: "mappings (snd (write mbc a v)) = mappings mbc"
  by (simp add: write_find write_mapped_def write_current_def bank_store_mappings Let_def
      split: option.splits)

lemma write_bankSize: "bankSize (snd (write mbc a v)) = bankSize mbc"
  by (simp add: write_find write_mapped_def write_current_def bank_store_bankSize Let_def
      split: option.splits)

lemma write_currentBank: "currentBank (snd (write mbc a v)) = currentBank mbc"
  by (simp add: write_find write_mapped_def write_current_def bank_store_currentBank Let_def
      split: option.splits)

lemma write_mapped_read:
  assumes "fst (write_mapped mbc m a v) = None"
  shows "read_mapped (snd (write_mapped mbc m a v)) m a = Inr v"
  using assms
  by (auto simp: write_mapped_def read_mapped_def Let_def bank_store_bankSize bank_store_load
      split: if_splits)

lemma write_current_read:
  assumes "fst (write_current mbc a v) = None"
  shows "read_current (snd (write_current mbc a v)) a = Inr v"
  using assms
  by (auto simp: write_current_def read_current_def bank_store_bankSize bank_store_load
        bank_store_currentBank split: if_splits)

lemma write_then_read:
  assumes "fst (write mbc a v) = None"
  shows "read (snd (write mbc a v)) a = Inr v"
proof (cases "find (\<lambda>m. in_mapping m a) (mappings mbc)")
  case None
  then have w: "write mbc a v = write_current mbc a v" by (simp add: write_find)
  have "read (snd (write mbc a v)) a = read_current (snd (write mbc a v)) a"
    using None by (simp add: read_find write_mappings)
  then show ?thesis using assms write_current_read [of mbc a v] by (simp add: w)
next
  case (Some m)
  then have w: "write mbc a v = write_mapped mbc m a v" by (simp add: write_find)
  have "read (snd (write mbc a v)) a = read_mapped (snd (write mbc a v)) m a"
    using Some by (simp add: read_find write_mappings)
  then show ?thesis using assms write_mapped_read [of mbc m a v] by (simp add: w)
qed

subsection \<open>Invariants of reachable controllers\<close>

lemma switchBank_mappings: "mappings (snd (switchBank b mbc)) = mappings mbc"
  by (simp add: switchBank_def try_catch_def)

lemma switchBank_bankSize: "bankSize (snd (switchBank b mbc)) = bankSize mbc"
  by (simp add: switchBank_def try_catch_def)

lemma mapMemory_bankSize: "bankSize (snd (mapMemory a b mbc)) = bankSize mbc"
  by (simp add: mapMemory_def try_catch_def)

lemma mapMemory_mappings_cases:
  "mappings (snd (mapMemory a b mbc)) = mappings mbc
   \<or> (fst (mapMemory a b mbc) = None
      \<and> \<not> overlap_check a (bankSize mbc) (mappings mbc)
      \<and> unat a + bankSize mbc \<le> 0xFFFF
      \<and> mappings (snd (mapMemory a b mbc)) = mappings mbc @
           [\<lparr>bank = b, baseAddr = a, size_m = of_nat (bankSize mbc), readOnly = False\<rparr>])"
  by (simp add: mapMemory_def try_catch_def)

lemma reachable_not_readOnly:
  "reachable mbc \<Longrightarrow> \<forall>m \<in> set (mappings mbc). \<not> readOnly m"
proof (induction rule: reachable.induct)
  case (init num_banks bank_size)
  show ?case by (simp add: MemoryBankController_init_def)
next
  case (switch mbc b)
  then show ?case by (simp add: switchBank_mappings)
next
  case (map mbc address b)
  then show ?case using mapMemory_mappings_cases [of address b mbc] by auto
next
  case (wr mbc address v)
  then show ?case by (simp add: write_mappings)
qed

lemma ivl_overlap_same_length:
  fixes a b n :: nat
  shows "{a ..< a + n} \<inter> {b ..< b + n} \<noteq> {}
           \<longleftrightarrow> (b \<le> a \<and> a < b + n) \<or> (b < a + n \<and> a + n \<le> b + n)"
proof
  assume "{a ..< a + n} \<inter> {b ..< b + n} \<noteq> {}"
  then obtain x where "x \<in> {a ..< a + n} \<inter> {b ..< b + n}" by blast
  then have "a \<le> x" "x < a + n" "b \<le> x" "x < b + n" by simp_all
  then show "(b \<le> a \<and> a < b + n) \<or> (b < a + n \<and> a + n \<le> b + n)" by linarith
next
  assume h: "(b \<le> a \<and> a < b + n) \<or> (b < a + n \<and> a + n \<le> b + n)"
  then have "max a b \<in> {a ..< a + n} \<inter> {b ..< b + n}" by auto
  then show "{a ..< a + n} \<inter> {b ..< b + n} \<noteq> {}" by blast
qed

lemma overlap_check_iff:
  assumes "\<forall>m \<in> set ms. unat (size_m m) = n"
  shows "overlap_check a n ms \<longleftrightarrow> (\<exists>m \<in> set ms. new_range a n \<inter> mapping_range m \<noteq> {})"
  using assms
proof (induction ms)
  case Nil
  show ?case by simp
next
  case (Cons m ms)
  have "new_range a n \<inter> mapping_range m \<noteq> {}
          \<longleftrightarrow> in_mapping m a
               \<or> (unat (baseAddr m) < unat a + n \<and> unat a + n \<le> unat (baseAddr m) + unat (size_m m))"
    using Cons.prems ivl_overlap_same_length [of "unat a" n "unat (baseAddr m)"]
    by (simp add: new_range_def mapping_range_def in_mapping_def)
  with Cons show ?case by auto
qed

lemma unat_of_nat_bankSize:
  "unat (a :: 16 word) + n \<le> 0xFFFF \<Longrightarrow> unat (of_nat n :: 16 word) = n"
proof -
  assume "unat a + n \<le> 0xFFFF"
  then have "n < 2 ^ LENGTH(16)" by simp
  then show ?thesis by (simp only: unat_of_nat mod_less)
qed

lemma reachable_sized: "reachable mbc \<Longrightarrow> sized_mappings mbc"
proof (induction rule: reachable.induct)
  case (init num_banks bank_size)
  show ?case by (simp add: sized_mappings_def MemoryBankController_init_def)
next
  case (switch mbc b)
  then show ?case by (simp add: sized_mappings_def switchBank_mappings switchBank_bankSize)
next
  case (map mbc address b)
  then show ?case
    using mapMemory_mappings_cases [of address b mbc] unat_of_nat_bankSize [of address "bankSize mbc"]
    by (auto simp: sized_mappings_def mapMemory_bankSize)
next
  case (wr mbc address v)
  then show ?case by (simp add: sized_mappings_def write_mappings write_bankSize)
qed

lemma reachable_disjoint: "reachable mbc \<Longrightarrow> disjoint_mappings (mappings mbc)"
proof (induction rule: reachable.induct)
  case (init num_banks bank_size)
  show ?case by (simp add: disjoint_mappings_def MemoryBankController_init_def)
next
  case (switch mbc b)
  then show ?case by (simp add: switchBank_mappings)
next
  case (map mbc address b)
  let ?new = "\<lparr>bank = b, baseAddr = address, size_m = of_nat (bankSize mbc), readOnly = False\<rparr>"
  from mapMemory_mappings_cases [of address b mbc] show ?case
  proof
    assume "mappings (snd (mapMemory address b mbc)) = mappings mbc"
    with map.IH show ?thesis by simp
  next
    assume h: "fst (mapMemory address b mbc) = None
      \<and> \<not> overlap_check address (bankSize mbc) (mappings mbc)
      \<and> unat address + bankSize mbc \<le> 0xFFFF
      \<and> mappings (snd (mapMemory address b mbc)) = mappings mbc @ [?new]"
    have sz: "\<forall>m \<in> set (mappings mbc). unat (size_m m) = bankSize mbc"
      using reachable_sized [OF map.hyps] by (simp add: sized_mappings_def)
    have "\<forall>m \<in> set (mappings mbc). new_range address (bankSize mbc) \<inter> mapping_range m = {}"
      using h overlap_check_iff [OF sz, of address] by blast
    moreover have "mapping_range ?new = new_range address (bankSize mbc)"
      using h unat_of_nat_bankSize [of address "bankSize mbc"]
      by (simp add: mapping_range_def new_range_def)
    ultimately have "\<forall>m \<in> set (mappings mbc). mapping_range m \<inter> mapping_range ?new = {}"
      by (simp add: Int_commute)
    with map.IH h show ?thesis
      by (simp add: disjoint_mappings_def sorted_wrt_append)
  qed
next
  case (wr mbc address v)
  then show ?case by (simp add: write_mappings)
qed

lemma disjoint_no_common_address:
  assumes "disjoint_mappings ms"
  shows "no_common_address ms"
  unfolding no_common_address_def
proof (intro allI impI notI)
  fix i j address
  assume ij: "i < j \<and> j < length ms"
    and both: "in_mapping (ms ! i) address \<and> in_mapping (ms ! j) address"
  from assms ij have "mapping_range (ms ! i) \<inter> mapping_range (ms ! j) = {}"
    by (simp add: disjoint_mappings_def sorted_wrt_iff_nth_less)
  moreover from both have "unat address \<in> mapping_range (ms ! i) \<inter> mapping_range (ms ! j)"
    by (simp add: in_mapping_def mapping_range_def)
  ultimately show False by blast
qed

lemma mapMemory_fault_iff:
  "fst (mapMemory a b mbc) \<noteq> None \<longleftrightarrow>
     unat b \<ge> length (banks mbc) \<or> overlap_check a (bankSize mbc) (mappings mbc)
     \<or> unat a + bankSize mbc > 0xFFFF"
  by (simp add: mapMemory_def try_catch_def)

lemma mapMemory_fault_code:
  "fst (mapMemory a b mbc) = Some f \<Longrightarrow> \<exists>msg. f = EmulatorException MEMORY_ACCESS_VIOLATION msg"
  by (auto simp: mapMemory_def try_catch_def split: if_splits)

lemma mapMemory_fault_unchanged:
  "fst (mapMemory a b mbc) \<noteq> None \<Longrightarrow> snd (mapMemory a b mbc) = mbc"
  by (auto simp: mapMemory_def try_catch_def split: if_splits)

lemma mapMemory_success:
  "fst (mapMemory a b mbc) = None \<Longrightarrow>
     snd (mapMemory a b mbc) = mbc\<lparr>mappings := mappings mbc @
       [\<lparr>bank = b, baseAddr = a, size_m = of_nat (bankSize mbc), readOnly = False\<rparr>]\<rparr>"
  by (auto simp: mapMemory_def try_catch_def split: if_splits)

lemma example_mbc_eq:
  "example_mbc =
     \<lparr>banks = replicate 4 (\<lambda>_. 0), currentBank = 0, bankSize = 0x4000,
      mappings = [\<lparr>bank = 1, baseAddr = 0x8000, size_m = 0x4000, readOnly = False\<rparr>]\<rparr>"
  by (simp add: example_mbc_def mapMemory_def MemoryBankController_init_def try_catch_def)

lemma example_mbc_reachable: "reachable example_mbc"
  unfolding example_mbc_def by (rule reachable.map) (rule reachable.init)

text \<open>
  C3: on a controller produced by the public interface, \<^verbatim>\<open>mapMemory(address, bank)\<close> raises
  exactly when the bank number is not below the number of banks, or
  \<^verbatim>\<open>address + bankSize\<close> exceeds \<^verbatim>\<open>0xFFFF\<close>, or the range
  \<^verbatim>\<open>[address, address + bankSize)\<close> meets the range of an existing mapping; every exception
  it raises has code \<^verbatim>\<open>MEMORY_ACCESS_VIOLATION\<close>; when it raises the controller is unchanged;
  when it succeeds the new mapping is appended and nothing else changes; and no two
  mappings of the table, before or after the call, cover a common guest address.
\<close>

theorem mapMemory_raises_exactly:
  assumes "reachable mbc"
  shows "(fst (mapMemory a b mbc) \<noteq> None \<longleftrightarrow>
            unat b \<ge> length (banks mbc)
            \<or> unat a + bankSize mbc > 0xFFFF
            \<or> (\<exists>m \<in> set (mappings mbc). new_range a (bankSize mbc) \<inter> mapping_range m \<noteq> {}))
       \<and> (\<forall>f. fst (mapMemory a b mbc) = Some f \<longrightarrow>
             (\<exists>msg. f = EmulatorException MEMORY_ACCESS_VIOLATION msg))
       \<and> (fst (mapMemory a b mbc) \<noteq> None \<longrightarrow> snd (mapMemory a b mbc) = mbc)
       \<and> (fst (mapMemory a b mbc) = None \<longrightarrow>
             snd (mapMemory a b mbc) = mbc\<lparr>mappings := mappings mbc @
               [\<lparr>bank = b, baseAddr = a, size_m = of_nat (bankSize mbc), readOnly = False\<rparr>]\<rparr>)
       \<and> no_common_address (mappings mbc)
       \<and> no_common_address (mappings (snd (mapMemory a b mbc)))"
proof -
  have sz: "\<forall>m \<in> set (mappings mbc). unat (size_m m) = bankSize mbc"
    using reachable_sized [OF assms] by (simp add: sized_mappings_def)
  have iff: "fst (mapMemory a b mbc) \<noteq> None \<longleftrightarrow>
            unat b \<ge> length (banks mbc)
            \<or> unat a + bankSize mbc > 0xFFFF
            \<or> (\<exists>m \<in> set (mappings mbc). new_range a (bankSize mbc) \<inter> mapping_range m \<noteq> {})"
    unfolding mapMemory_fault_iff overlap_check_iff [OF sz] by blast
  have d1: "no_common_address (mappings mbc)"
    by (rule disjoint_no_common_address [OF reachable_disjoint [OF assms]])
  have d2: "no_common_address (mappings (snd (mapMemory a b mbc)))"
    by (rule disjoint_no_common_address [OF reachable_disjoint [OF reachable.map [OF assms]]])
  show ?thesis
    using iff d1 d2 mapMemory_fault_code [of a b mbc] mapMemory_fault_unchanged [of a b mbc]
      mapMemory_success [of a b mbc]
    by blast
qed

theorem mapMemory_raises_exactly_witness:
  "reachable example_mbc
   \<and> fst (mapMemory 0x9000 2 example_mbc)
       = Some (EmulatorException MEMORY_ACCESS_VIOLATION ''Memory mapping overlap'')
   \<and> (\<exists>m \<in> set (mappings example_mbc).
         new_range 0x9000 (bankSize example_mbc) \<inter> mapping_range m \<noteq> {})
   \<and> snd (mapMemory 0x9000 2 example_mbc) = example_mbc
   \<and> fst (mapMemory 0x4000 2 example_mbc) = None
   \<and> mappings (snd (mapMemory 0x4000 2 example_mbc))
       = [\<lparr>bank = 1, baseAddr = 0x8000, size_m = 0x4000, readOnly = False\<rparr>,
          \<lparr>bank = 2, baseAddr = 0x4000, size_m = 0x4000, readOnly = False\<rparr>]
   \<and> no_common_address (mappings (snd (mapMemory 0x4000 2 example_mbc)))"
proof -
  note t1 = mapMemory_raises_exactly [OF example_mbc_reachable, of "0x9000" 2]
  note t2 = mapMemory_raises_exactly [OF example_mbc_reachable, of "0x4000" 2]
  have f: "fst (mapMemory 0x9000 2 example_mbc)
       = Some (EmulatorException MEMORY_ACCESS_VIOLATION ''Memory mapping overlap'')"
    by (simp add: example_mbc_eq mapMemory_def try_catch_def in_mapping_def)
  have g: "fst (mapMemory 0x4000 2 example_mbc) = None"
    by (simp add: example_mbc_eq mapMemory_def try_catch_def in_mapping_def)
  have len: "\<not> unat (2 :: 8 word) \<ge> length (banks example_mbc)"
    and rng: "\<not> unat (0x9000 :: 16 word) + bankSize example_mbc > 0xFFFF"
    by (simp_all add: example_mbc_eq)
  have ov: "\<exists>m \<in> set (mappings example_mbc).
         new_range 0x9000 (bankSize example_mbc) \<inter> mapping_range m \<noteq> {}"
    using t1 f len rng by simp
  have same: "snd (mapMemory 0x9000 2 example_mbc) = example_mbc"
    using t1 f by simp
  have app: "snd (mapMemory 0x4000 2 example_mbc) = example_mbc\<lparr>mappings := mappings example_mbc @
               [\<lparr>bank = 2, baseAddr = 0x4000, size_m = of_nat (bankSize example_mbc),
                 readOnly = False\<rparr>]\<rparr>"
    using t2 g by simp
  have ms: "mappings (snd (mapMemory 0x4000 2 example_mbc))
       = [\<lparr>bank = 1, baseAddr = 0x8000, size_m = 0x4000, readOnly = False\<rparr>,
          \<lparr>bank = 2, baseAddr = 0x4000, size_m = 0x4000, readOnly = False\<rparr>]"
    unfolding app by (simp add: example_mbc_eq)
  have nc: "no_common_address (mappings (snd (mapMemory 0x4000 2 example_mbc)))"
    using t2 by simp
  show ?thesis
    using example_mbc_reachable f ov same g ms nc by (intro conjI)
qed

text \<open>
  C5: \<^verbatim>\<open>read\<close> and \<^verbatim>\<open>write\<close> resolve an address by the first mapping, in insertion order,
  whose range contains it (\<open>find\<close> returns the first such element of the table): that
  mapping gives the bank and the offset \<^verbatim>\<open>address - baseAddr\<close>. If no mapping contains
  the address the current bank is used with the address as offset, and there an address
  not below \<^verbatim>\<open>bankSize\<close> raises \<^verbatim>\<open>MEMORY_ACCESS_VIOLATION\<close>.
\<close>

theorem read_write_resolution:
  "(\<forall>m. find (\<lambda>m. in_mapping m a) (mappings mbc) = Some m \<longrightarrow>
       read mbc a =
         (if unat (a - baseAddr m) \<ge> bankSize mbc
          then Inl (EmulatorException MEMORY_ACCESS_VIOLATION ''Bank offset out of range'')
          else if unat (bank m) < length (banks mbc)
          then Inr ((banks mbc ! unat (bank m)) (unat (a - baseAddr m)))
          else Inl UndefinedBehaviour)
     \<and> write mbc a v =
         (if readOnly m
          then (Some (EmulatorException MEMORY_ACCESS_VIOLATION ''Write to read-only memory''), mbc)
          else if unat (a - baseAddr m) \<ge> bankSize mbc
          then (Some (EmulatorException MEMORY_ACCESS_VIOLATION ''Bank offset out of range''), mbc)
          else if unat (bank m) < length (banks mbc)
          then (None, mbc\<lparr>banks := (banks mbc)
                  [unat (bank m) := (banks mbc ! unat (bank m))(unat (a - baseAddr m) := v)]\<rparr>)
          else (Some UndefinedBehaviour, mbc)))
   \<and> (find (\<lambda>m. in_mapping m a) (mappings mbc) = None \<longrightarrow>
       read mbc a =
         (if unat a \<ge> bankSize mbc
          then Inl (EmulatorException MEMORY_ACCESS_VIOLATION ''Address out of range'')
          else if unat (currentBank mbc) < length (banks mbc)
          then Inr ((banks mbc ! unat (currentBank mbc)) (unat a))
          else Inl UndefinedBehaviour)
     \<and> write mbc a v =
         (if unat a \<ge> bankSize mbc
          then (Some (EmulatorException MEMORY_ACCESS_VIOLATION ''Address out of range''), mbc)
          else if unat (currentBank mbc) < length (banks mbc)
          then (None, mbc\<lparr>banks := (banks mbc)
                  [unat (currentBank mbc) := (banks mbc ! unat (currentBank mbc))(unat a := v)]\<rparr>)
          else (Some UndefinedBehaviour, mbc)))"
  by (simp add: read_find write_find read_mapped_def write_mapped_def read_current_def
      write_current_def bank_load_def bank_store_def Let_def)

theorem read_write_resolution_witness:
  "find (\<lambda>m. in_mapping m 0x8010) (mappings example_mbc)
     = Some \<lparr>bank = 1, baseAddr = 0x8000, size_m = 0x4000, readOnly = False\<rparr>
   \<and> read example_mbc 0x8010 = Inr 0
   \<and> fst (write example_mbc 0x8010 7) = None
   \<and> find (\<lambda>m. in_mapping m 0x4000) (mappings example_mbc) = None
   \<and> read example_mbc 0x4000 = Inl (EmulatorException MEMORY_ACCESS_VIOLATION ''Address out of range'')
   \<and> write example_mbc 0x4000 7
       = (Some (EmulatorException MEMORY_ACCESS_VIOLATION ''Address out of range''), example_mbc)
   \<and> find (\<lambda>m. in_mapping m 0x0010) (mappings example_mbc) = None
   \<and> read example_mbc 0x0010 = Inr 0"
proof -
  have f1: "find (\<lambda>m. in_mapping m 0x8010) (mappings example_mbc)
     = Some \<lparr>bank = 1, baseAddr = 0x8000, size_m = 0x4000, readOnly = False\<rparr>"
    and f2: "find (\<lambda>m. in_mapping m 0x4000) (mappings example_mbc) = None"
    and f3: "find (\<lambda>m. in_mapping m 0x0010) (mappings example_mbc) = None"
    by (simp_all add: example_mbc_eq in_mapping_def)
  show ?thesis
    using read_write_resolution [of "0x8010" example_mbc 7]
      read_write_resolution [of "0x4000" example_mbc 7]
      read_write_resolution [of "0x0010" example_mbc 7] f1 f2 f3
    by (simp add: example_mbc_eq)
qed

text \<open>
  C6: if \<^verbatim>\<open>write(a, v)\<close> succeeds, then \<^verbatim>\<open>read(a)\<close> on the resulting controller returns
  \<open>v\<close>, whether \<open>a\<close> is mapped or resolved through the current bank.
\<close>

theorem read_after_write_coherent:
  assumes "fst (write mbc a v) = None"
  shows "read (snd (write mbc a v)) a = Inr v"
  using assms by (rule write_then_read)

theorem read_after_write_coherent_witness:
  "fst (write example_mbc 0x8010 7) = None
   \<and> read (snd (write example_mbc 0x8010 7)) 0x8010 = Inr 7
   \<and> fst (write example_mbc 0x0010 9) = None
   \<and> read (snd (write example_mbc 0x0010 9)) 0x0010 = Inr 9"
proof -
  have w1: "fst (write example_mbc 0x8010 7) = None"
    and w2: "fst (write example_mbc 0x0010 9) = None"
    by (simp_all add: example_mbc_eq write_find in_mapping_def write_mapped_def
        write_current_def bank_store_def)
  show ?thesis
    using read_after_write_coherent [OF w1] read_after_write_coherent [OF w2] w1 w2 by simp
qed

lemma write_readOnly_fault:
  assumes "fst (write mbc a v)
             = Some (EmulatorException MEMORY_ACCESS_VIOLATION ''Write to read-only memory'')"
  shows "\<exists>m \<in> set (mappings mbc). readOnly m"
proof (cases "find (\<lambda>m. in_mapping m a) (mappings mbc)")
  case None
  with assms show ?thesis
    by (simp add: write_find write_current_def bank_store_def split: if_splits)
next
  case (Some m)
  then have "m \<in> set (mappings mbc)" by (auto simp: find_Some_iff)
  moreover have "readOnly m"
    using assms Some
    by (simp add: write_find write_mapped_def bank_store_def Let_def split: if_splits)
  ultimately show ?thesis by blast
qed

text \<open>
  C10: on a controller produced by the public interface every mapping has
  \<^verbatim>\<open>readOnly = false\<close>, each of \<^verbatim>\<open>mapMemory\<close>, \<^verbatim>\<open>switchBank\<close> and \<^verbatim>\<open>write\<close> keeps it so, and
  \<^verbatim>\<open>write\<close> never raises the exception "Write to read-only memory".
\<close>

theorem mappings_never_readOnly:
  assumes "reachable mbc"
  shows "(\<forall>m \<in> set (mappings mbc). readOnly m = False)
       \<and> (\<forall>m \<in> set (mappings (snd (mapMemory address b mbc))). readOnly m = False)
       \<and> (\<forall>m \<in> set (mappings (snd (switchBank b mbc))). readOnly m = False)
       \<and> (\<forall>m \<in> set (mappings (snd (write mbc a v))). readOnly m = False)
       \<and> fst (write mbc a v)
           \<noteq> Some (EmulatorException MEMORY_ACCESS_VIOLATION ''Write to read-only memory'')"
proof -
  have "fst (write mbc a v)
           \<noteq> Some (EmulatorException MEMORY_ACCESS_VIOLATION ''Write to read-only memory'')"
    using reachable_not_readOnly [OF assms] write_readOnly_fault [of mbc a v] by blast
  then show ?thesis
    using reachable_not_readOnly [OF assms]
      reachable_not_readOnly [OF reachable.map [OF assms, of address b]]
      reachable_not_readOnly [OF reachable.switch [OF assms, of b]]
      reachable_not_readOnly [OF reachable.wr [OF assms, of a v]]
    by simp
qed

theorem mappings_never_readOnly_witness:
  "reachable example_mbc
   \<and> mappings example_mbc = [\<lparr>bank = 1, baseAddr = 0x8000, size_m = 0x4000, readOnly = False\<rparr>]
   \<and> readOnly (hd (mappings example_mbc)) = False
   \<and> fst (write example_mbc 0x8010 7)
       \<noteq> Some (EmulatorException MEMORY_ACCESS_VIOLATION ''Write to read-only memory'')"
proof -
  note t = mappings_never_readOnly [OF example_mbc_reachable, of 0 0 "0x8010" 7]
  have ms: "mappings example_mbc
              = [\<lparr>bank = 1, baseAddr = 0x8000, size_m = 0x4000, readOnly = False\<rparr>]"
    by (simp add: example_mbc_eq)
  have ro: "readOnly (hd (mappings example_mbc)) = False"
    using t by (simp add: ms)
  have nw: "fst (write example_mbc 0x8010 7)
       \<noteq> Some (EmulatorException MEMORY_ACCESS_VIOLATION ''Write to read-only memory'')"
    using t by simp
  show ?thesis
    using example_mbc_reachable ms ro nw by (intro conjI)
qed

text \<open>The read-only check of \<^verbatim>\<open>write\<close> does fire on a table that holds a read-only
  mapping; no public operation builds such a table.\<close>

lemma write_readOnly_mapping_raises:
  "write \<lparr>banks = [\<lambda>_. 0], currentBank = 0, bankSize = 0x100,
          mappings = [\<lparr>bank = 0, baseAddr = 0, size_m = 0x100, readOnly = True\<rparr>]\<rparr> 0x10 7
     = (Some (EmulatorException MEMORY_ACCESS_VIOLATION ''Write to read-only memory''),
        \<lparr>banks = [\<lambda>_. 0], currentBank = 0, bankSize = 0x100,
          mappings = [\<lparr>bank = 0, baseAddr = 0, size_m = 0x100, readOnly = True\<rparr>]\<rparr>)"
  by (simp add: write_find in_mapping_def write_mapped_def)

section \<open>Properties of the byte cache and the enhanced step\<close>

subsection \<open>flush\<close>

lemma fold_flush_entry_cache:
  "cache (fst (fold flush_entry xs (mc, mem))) i =
     (if i \<in> set xs \<and> ce_valid (cache mc i) \<and> ce_dirty (cache mc i)
      then (cache mc i)\<lparr>ce_dirty := False\<rparr> else cache mc i)"
proof (induction xs arbitrary: mc mem)
  case Nil
  show ?case by simp
next
  case (Cons x xs)
  obtain mc1 mem1 where step: "flush_entry x (mc, mem) = (mc1, mem1)"
    by (cases "flush_entry x (mc, mem)")
  have c1: "cache mc1 = (cache mc)(x := (if ce_valid (cache mc x) \<and> ce_dirty (cache mc x)
                                          then (cache mc x)\<lparr>ce_dirty := False\<rparr> else cache mc x))"
    using step by (auto simp: flush_entry_def Let_def split: if_splits)
  have "cache (fst (fold flush_entry (x # xs) (mc, mem))) i
          = cache (fst (fold flush_entry xs (mc1, mem1))) i"
    by (simp add: step)
  also have "\<dots> = (if i \<in> set xs \<and> ce_valid (cache mc1 i) \<and> ce_dirty (cache mc1 i)
                    then (cache mc1 i)\<lparr>ce_dirty := False\<rparr> else cache mc1 i)"
    by (rule Cons.IH)
  also have "\<dots> = (if i \<in> set (x # xs) \<and> ce_valid (cache mc i) \<and> ce_dirty (cache mc i)
                    then (cache mc i)\<lparr>ce_dirty := False\<rparr> else cache mc i)"
    by (simp add: c1)
  finally show ?case .
qed

lemma fold_flush_entry_memory:
  assumes "well_indexed mc"
  shows "snd (fold flush_entry xs (mc, mem)) a =
           (if cache_index a \<in> set xs \<and> ce_valid (cache mc (cache_index a))
               \<and> ce_dirty (cache mc (cache_index a))
               \<and> ce_address (cache mc (cache_index a)) = a
            then ce_value (cache mc (cache_index a)) else mem a)"
  using assms
proof (induction xs arbitrary: mc mem)
  case Nil
  show ?case by simp
next
  case (Cons x xs)
  obtain mc1 mem1 where step: "flush_entry x (mc, mem) = (mc1, mem1)"
    by (cases "flush_entry x (mc, mem)")
  let ?e = "cache mc x"
  have c1: "cache mc1 = (cache mc)(x := (if ce_valid ?e \<and> ce_dirty ?e
                                          then ?e\<lparr>ce_dirty := False\<rparr> else ?e))"
    using step by (auto simp: flush_entry_def Let_def split: if_splits)
  have m1: "mem1 = (if ce_valid ?e \<and> ce_dirty ?e then mem(ce_address ?e := ce_value ?e) else mem)"
    using step by (auto simp: flush_entry_def Let_def split: if_splits)
  have wi1: "well_indexed mc1"
    using Cons.prems by (simp add: well_indexed_def c1)
  have idx: "ce_valid ?e \<Longrightarrow> cache_index (ce_address ?e) = x"
    using Cons.prems by (simp add: well_indexed_def)
  have "snd (fold flush_entry (x # xs) (mc, mem)) a = snd (fold flush_entry xs (mc1, mem1)) a"
    by (simp add: step)
  also have "\<dots> = (if cache_index a \<in> set xs \<and> ce_valid (cache mc1 (cache_index a))
               \<and> ce_dirty (cache mc1 (cache_index a))
               \<and> ce_address (cache mc1 (cache_index a)) = a
            then ce_value (cache mc1 (cache_index a)) else mem1 a)"
    by (rule Cons.IH [OF wi1])
  also have "\<dots> = (if cache_index a \<in> set (x # xs) \<and> ce_valid (cache mc (cache_index a))
               \<and> ce_dirty (cache mc (cache_index a))
               \<and> ce_address (cache mc (cache_index a)) = a
            then ce_value (cache mc (cache_index a)) else mem a)"
    using idx by (auto simp: c1 m1)
  finally show ?case .
qed

lemma all_cache_indices: "set (map of_nat [0 ..< 256]) = (UNIV :: 8 word set)"
proof -
  have "w \<in> set (map of_nat [0 ..< 256])" for w :: "8 word"
  proof -
    have "unat w < 256" using unsigned_less [of w, where 'a = nat] by simp
    moreover have "of_nat (unat w) = w" by simp
    ultimately show ?thesis by (force simp: image_iff)
  qed
  then show ?thesis by blast
qed

lemma flush_cache:
  "cache (fst (flush (mc, mem))) i =
     (if ce_valid (cache mc i) \<and> ce_dirty (cache mc i)
      then (cache mc i)\<lparr>ce_dirty := False\<rparr> else cache mc i)"
  unfolding flush_def fold_flush_entry_cache all_cache_indices by simp

lemma flush_memory:
  assumes "well_indexed mc"
  shows "snd (flush (mc, mem)) a =
           (if ce_valid (cache mc (cache_index a)) \<and> ce_dirty (cache mc (cache_index a))
               \<and> ce_address (cache mc (cache_index a)) = a
            then ce_value (cache mc (cache_index a)) else mem a)"
  unfolding flush_def fold_flush_entry_memory [OF assms] all_cache_indices by simp

lemma flush_no_dirty:
  "\<not> (ce_valid (cache (fst (flush (mc, mem))) i) \<and> ce_dirty (cache (fst (flush (mc, mem))) i))"
  by (simp add: flush_cache)

lemma flush_commits:
  assumes "well_indexed mc" "ce_valid (cache mc i)" "ce_dirty (cache mc i)"
  shows "snd (flush (mc, mem)) (ce_address (cache mc i)) = ce_value (cache mc i)"
proof -
  have "cache_index (ce_address (cache mc i)) = i"
    using assms by (simp add: well_indexed_def)
  then show ?thesis using assms by (simp add: flush_memory)
qed

lemma well_indexed_init: "well_indexed MemoryCache_init"
  by (simp add: well_indexed_def MemoryCache_init_def)

lemma well_indexed_cache_write: "well_indexed mc \<Longrightarrow> well_indexed (cache_write a v mc)"
  by (simp add: well_indexed_def cache_write_def)

lemma well_indexed_cache_read:
  "well_indexed mc \<Longrightarrow> well_indexed (fst (snd (cache_read a (mc, mem))))"
  by (simp add: well_indexed_def cache_read_def Let_def)

subsection \<open>The two paths of the enhanced step\<close>

lemma Emulate8080p_replay:
  assumes "debug = 0" "instructionCache e (pc (state (cpu8080 e))) = Some cached" "replayable e"
  shows "Emulate8080p base duration debug e =
           apply_cached cached (memory (cpu8080 e) (pc (state (cpu8080 e)))) e"
  using assms by (simp add: Emulate8080p_def replayable_def Let_def)

lemma Emulate8080p_normal:
  assumes "\<not> (debug = 0 \<and> replayable e)"
  shows "Emulate8080p base duration debug e =
           execute_normally base duration debug (pc (state (cpu8080 e))) e"
  using assms by (auto simp: Emulate8080p_def replayable_def Let_def split: option.splits)

lemma replayable_entry:
  "replayable e \<Longrightarrow> \<exists>cached. instructionCache e (pc (state (cpu8080 e))) = Some cached"
  by (simp add: replayable_def split: option.splits)

lemma apply_cached_intController: "intController (snd (apply_cached cached opc e)) = intController e"
  by (simp add: apply_cached_def Let_def)

lemma apply_cached_base_fields:
  "scheduler_timer (cpu8080 (snd (apply_cached cached opc e))) = scheduler_timer (cpu8080 e)"
  "quantum (cpu8080 (snd (apply_cached cached opc e))) = quantum (cpu8080 e)"
  "interrupt (cpu8080 (snd (apply_cached cached opc e))) = interrupt (cpu8080 e)"
  "memory (cpu8080 (snd (apply_cached cached opc e))) = memory (cpu8080 e)"
  by (simp_all add: apply_cached_def Let_def)

lemma apply_cached_cache:
  "memoryCache (snd (apply_cached cached opc e)) = memoryCache e"
  "cacheFlushCounter (snd (apply_cached cached opc e)) = cacheFlushCounter e"
  by (simp_all add: apply_cached_def Let_def)

lemma execute_normally_intController:
  "intController (snd (execute_normally base duration debug pc0 e)) = intController e"
  by (simp add: execute_normally_def Let_def split: prod.splits sum.splits)

lemma execute_normally_base_fields:
  "scheduler_timer (cpu8080 (snd (execute_normally base duration debug pc0 e)))
     = scheduler_timer (snd (base debug (cpu8080 e)))"
  "quantum (cpu8080 (snd (execute_normally base duration debug pc0 e)))
     = quantum (snd (base debug (cpu8080 e)))"
  "state (cpu8080 (snd (execute_normally base duration debug pc0 e)))
     = state (snd (base debug (cpu8080 e)))"
  by (simp_all add: execute_normally_def Let_def split: prod.splits sum.splits)

lemma ucast_cycles: "(ucast (ucast (cyc :: 32 word) :: 64 word) :: 32 word) = cyc"
  by (simp add: unsigned_ucast_eq take_bit_word_eq_self)

lemma execute_normally_fst:
  "fst (execute_normally base duration debug pc0 e) = fst (base debug (cpu8080 e))"
  by (simp add: execute_normally_def Let_def ucast_cycles split: prod.splits sum.splits)

lemma execute_normally_cpu8080:
  "cpu8080 (snd (execute_normally base duration debug pc0 e)) =
     (case base debug (cpu8080 e) of
        (Inl f, b) \<Rightarrow> b
      | (Inr cyc, b) \<Rightarrow>
          if cacheFlushCounter e + 1 \<ge> 1000
          then b\<lparr>memory := snd (flush (memoryCache e, memory b))\<rparr>
          else b)"
  by (simp add: execute_normally_def Let_def split: prod.splits sum.splits)

lemma execute_normally_tick:
  assumes "base debug (cpu8080 e) = (Inr cyc, b)"
  shows "cacheFlushCounter (snd (execute_normally base duration debug pc0 e))
           = (if cacheFlushCounter e + 1 \<ge> 1000 then 0 else cacheFlushCounter e + 1)"
    and "memoryCache (snd (execute_normally base duration debug pc0 e))
           = (if cacheFlushCounter e + 1 \<ge> 1000
              then fst (flush (memoryCache e, memory b)) else memoryCache e)"
    and "memory (cpu8080 (snd (execute_normally base duration debug pc0 e)))
           = (if cacheFlushCounter e + 1 \<ge> 1000
              then snd (flush (memoryCache e, memory b)) else memory b)"
  using assms by (simp_all add: execute_normally_def Let_def split: prod.splits)

lemma no_tick_at_one: "\<not> (1000 :: 32 word) \<le> 1"
  by (simp add: word_le_nat_alt)

lemma cached_cpu_fields:
  "instructionCache cached_cpu =
     [0 \<mapsto> \<lparr>ci_length = 1, ci_cycles = 4, ci_affects_flags = False, result_a = 0,
             result_b = 0, result_c = 0, result_d = 0, result_e = 0, result_h = 0,
             result_l = 0\<rparr>]"
  "cpu8080 cached_cpu = (cpu8080 fresh_cpu)\<lparr>state := State8080_zero\<lparr>pc := 1\<rparr>\<rparr>"
  "intController cached_cpu = InterruptController_init"
  "profilingEnabled cached_cpu = False"
  by (simp_all add: cached_cpu_def Emulate8080p_def execute_normally_def base_step_NOP_def
      fresh_cpu_def State8080_zero_def INSTRUCTION_TABLE_def instruction_entries_def DI_def Let_def
      no_tick_at_one)

lemma replay_cpu_replayable: "replayable replay_cpu"
  by (simp add: replayable_def replay_cpu_def cached_cpu_fields fresh_cpu_def
      INSTRUCTION_TABLE_def instruction_entries_def DI_def)

lemma fresh_cpu_not_replayable: "\<not> replayable fresh_cpu"
  by (simp add: replayable_def fresh_cpu_def)

text \<open>
  Where the two runs do agree: if the instruction cache holds no replayable entry for the
  current PC (no entry, or an entry marked as affecting flags, or the opcode at the PC is
  marked as a memory access), and the base-class step gives the same result for this
  debug value as for debug zero, then one step with this debug value and one step with
  debug zero return the same cycle count (or the same exception) and leave the same
  base-class part of the CPU: registers, flags, PC and SP (the \<^verbatim>\<open>State8080\<close>), and memory.
\<close>

lemma debug_agrees_without_replay:
  assumes "\<not> replayable e"
    and "base debug (cpu8080 e) = base 0 (cpu8080 e)"
  shows "fst (Emulate8080p base duration debug e) = fst (Emulate8080p base duration' 0 e)
       \<and> state (cpu8080 (snd (Emulate8080p base duration debug e)))
           = state (cpu8080 (snd (Emulate8080p base duration' 0 e)))
       \<and> cpu8080 (snd (Emulate8080p base duration debug e))
           = cpu8080 (snd (Emulate8080p base duration' 0 e))"
  using assms
  by (simp add: Emulate8080p_normal execute_normally_fst execute_normally_cpu8080)

lemma debug_agrees_without_replay_example:
  "\<not> replayable fresh_cpu
   \<and> base_step_NOP 1 (cpu8080 fresh_cpu) = base_step_NOP 0 (cpu8080 fresh_cpu)
   \<and> fst (Emulate8080p base_step_NOP 0 1 fresh_cpu) = Inr 4
   \<and> fst (Emulate8080p base_step_NOP 0 0 fresh_cpu) = Inr 4
   \<and> state (cpu8080 (snd (Emulate8080p base_step_NOP 0 1 fresh_cpu)))
       = state (cpu8080 (snd (Emulate8080p base_step_NOP 0 0 fresh_cpu)))
   \<and> pc (state (cpu8080 (snd (Emulate8080p base_step_NOP 0 1 fresh_cpu)))) = 1"
proof -
  have b: "base_step_NOP 1 (cpu8080 fresh_cpu) = base_step_NOP 0 (cpu8080 fresh_cpu)"
    by (simp add: base_step_NOP_def)
  note t = debug_agrees_without_replay [where e = fresh_cpu and base = base_step_NOP
      and debug = 1 and duration = 0 and duration' = 0, OF fresh_cpu_not_replayable b]
  have c0: "fst (Emulate8080p base_step_NOP 0 0 fresh_cpu) = Inr 4"
    by (simp add: Emulate8080p_def fresh_cpu_def execute_normally_def base_step_NOP_def
        State8080_zero_def Let_def)
  have c1: "fst (Emulate8080p base_step_NOP 0 1 fresh_cpu) = Inr 4"
    using t c0 by simp
  have p0: "pc (state (cpu8080 (snd (Emulate8080p base_step_NOP 0 0 fresh_cpu)))) = 1"
    using cached_cpu_fields(2) by (simp add: cached_cpu_def State8080_zero_def)
  have p1: "pc (state (cpu8080 (snd (Emulate8080p base_step_NOP 0 1 fresh_cpu)))) = 1"
    using t p0 by simp
  show ?thesis
    using fresh_cpu_not_replayable b c0 c1 t p1 by (intro conjI) simp_all
qed

text \<open>
  C2 (the code at a failing input): on \<open>replay_cpu\<close> the instruction cache holds the entry
  that the step itself stored for the NOP at address 0, and the host has since set A to 7
  and the PC back to 0. With debug zero the step replays the cached registers, so A
  becomes 0; with debug non-zero the step executes the NOP and A stays 7. Both return 4
  cycles.
\<close>

theorem debug_changes_replayed_step:
  "fst (Emulate8080p base_step_NOP 0 0 replay_cpu) = Inr 4
   \<and> reg_a (state (cpu8080 (snd (Emulate8080p base_step_NOP 0 0 replay_cpu)))) = 0
   \<and> fst (Emulate8080p base_step_NOP 0 1 replay_cpu) = Inr 4
   \<and> reg_a (state (cpu8080 (snd (Emulate8080p base_step_NOP 0 1 replay_cpu)))) = 7"
  by (simp add: Emulate8080p_def replay_cpu_def cached_cpu_fields fresh_cpu_def
      apply_cached_def execute_normally_fst execute_normally_base_fields base_step_NOP_def
      State8080_zero_def INSTRUCTION_TABLE_def instruction_entries_def DI_def Let_def)

text \<open>
  What the enhanced step itself does to the scheduler members, for any base-class step:
  it never changes the queue of the interrupt controller; when it replays a cached
  instruction it leaves \<^verbatim>\<open>scheduler_timer\<close> and \<^verbatim>\<open>quantum\<close> unchanged; otherwise
  \<^verbatim>\<open>scheduler_timer\<close> and \<^verbatim>\<open>quantum\<close> after the step are those the base-class step left.
\<close>

lemma step_leaves_scheduler_alone:
  "intController (snd (Emulate8080p base duration debug e)) = intController e
   \<and> (debug = 0 \<and> replayable e \<longrightarrow>
        scheduler_timer (cpu8080 (snd (Emulate8080p base duration debug e)))
          = scheduler_timer (cpu8080 e)
      \<and> quantum (cpu8080 (snd (Emulate8080p base duration debug e))) = quantum (cpu8080 e))
   \<and> (\<not> (debug = 0 \<and> replayable e) \<longrightarrow>
        scheduler_timer (cpu8080 (snd (Emulate8080p base duration debug e)))
          = scheduler_timer (snd (base debug (cpu8080 e)))
      \<and> quantum (cpu8080 (snd (Emulate8080p base duration debug e)))
          = quantum (snd (base debug (cpu8080 e))))"
proof -
  have fast: "scheduler_timer (cpu8080 (snd (Emulate8080p base duration debug e)))
          = scheduler_timer (cpu8080 e)
      \<and> quantum (cpu8080 (snd (Emulate8080p base duration debug e))) = quantum (cpu8080 e)
      \<and> intController (snd (Emulate8080p base duration debug e)) = intController e"
    if "debug = 0 \<and> replayable e"
  proof -
    from that obtain cached where "instructionCache e (pc (state (cpu8080 e))) = Some cached"
      using replayable_entry by blast
    with that show ?thesis
      by (simp add: Emulate8080p_replay apply_cached_intController apply_cached_base_fields)
  qed
  have slow: "scheduler_timer (cpu8080 (snd (Emulate8080p base duration debug e)))
          = scheduler_timer (snd (base debug (cpu8080 e)))
      \<and> quantum (cpu8080 (snd (Emulate8080p base duration debug e)))
          = quantum (snd (base debug (cpu8080 e)))
      \<and> intController (snd (Emulate8080p base duration debug e)) = intController e"
    if "\<not> (debug = 0 \<and> replayable e)"
  proof -
    from that have n: "Emulate8080p base duration debug e =
           execute_normally base duration debug (pc (state (cpu8080 e))) e"
      by (rule Emulate8080p_normal)
    show ?thesis
      unfolding n by (simp add: execute_normally_intController execute_normally_base_fields)
  qed
  show ?thesis using fast slow by blast
qed

lemma step_leaves_scheduler_alone_example:
  "replayable replay_cpu
   \<and> intController (snd (Emulate8080p base_step_NOP 0 0 replay_cpu)) = intController replay_cpu
   \<and> scheduler_timer (cpu8080 (snd (Emulate8080p base_step_NOP 0 0 replay_cpu)))
       = scheduler_timer (cpu8080 replay_cpu)
   \<and> \<not> replayable fresh_cpu
   \<and> scheduler_timer (cpu8080 (snd (Emulate8080p base_step_NOP 0 0 fresh_cpu)))
       = scheduler_timer (snd (base_step_NOP 0 (cpu8080 fresh_cpu)))"
proof -
  note t1 = step_leaves_scheduler_alone [where e = replay_cpu and base = base_step_NOP
      and debug = 0 and duration = 0]
  note t2 = step_leaves_scheduler_alone [where e = fresh_cpu and base = base_step_NOP
      and debug = 0 and duration = 0]
  show ?thesis
    using t1 t2 replay_cpu_replayable fresh_cpu_not_replayable by simp
qed

text \<open>
  C4 (the code at a failing input): the step replays the cached NOP and returns 4 cycles
  without calling the base-class step, and the scheduler timer stays at 0; with 76 cycles
  on the timer and a quantum of 80 the same step returns 4 cycles, the timer stays at 76,
  and no interrupt is queued.
\<close>

theorem step_skips_scheduler_timer:
  "fst (Emulate8080p base_step_NOP 0 0 replay_cpu) = Inr 4
   \<and> scheduler_timer (cpu8080 replay_cpu) = 0
   \<and> scheduler_timer (cpu8080 (snd (Emulate8080p base_step_NOP 0 0 replay_cpu))) = 0
   \<and> fst (Emulate8080p base_step_NOP 0 0 late_cpu) = Inr 4
   \<and> quantum (cpu8080 late_cpu) = 80
   \<and> scheduler_timer (cpu8080 late_cpu) = 76
   \<and> scheduler_timer (cpu8080 (snd (Emulate8080p base_step_NOP 0 0 late_cpu))) = 76
   \<and> int_queue (intController (snd (Emulate8080p base_step_NOP 0 0 late_cpu))) = []"
  by (simp add: Emulate8080p_def late_cpu_def replay_cpu_def cached_cpu_fields fresh_cpu_def
      apply_cached_def InterruptController_init_def
      State8080_zero_def INSTRUCTION_TABLE_def instruction_entries_def DI_def Let_def)

subsection \<open>Bank switch and cache flush\<close>

lemma switchBank_valid:
  "unat b < length (banks mbc) \<Longrightarrow> switchBank b mbc = (None, mbc\<lparr>currentBank := b\<rparr>)"
  by (simp add: switchBank_def try_catch_def)

lemma switchBank_invalid:
  "unat b \<ge> length (banks mbc) \<Longrightarrow>
     switchBank b mbc
       = (Some (EmulatorException MEMORY_ACCESS_VIOLATION ''Invalid bank number''), mbc)"
  by (simp add: switchBank_def try_catch_def)

lemma cpu_switchBank_cache:
  "memoryCache (snd (cpu_switchBank b e)) = memoryCache e"
  "cpu8080 (snd (cpu_switchBank b e)) = cpu8080 e"
  "cacheFlushCounter (snd (cpu_switchBank b e)) = cacheFlushCounter e"
  by (simp_all add: cpu_switchBank_def split: prod.splits)

text \<open>
  Bank switch and periodic flush on any state of the CPU, buffered writes in the byte
  cache included. \<^verbatim>\<open>switchBank(bank)\<close> with a valid bank number sets the current bank and
  changes nothing else; with an invalid bank number it raises \<^verbatim>\<open>MEMORY_ACCESS_VIOLATION\<close>
  and leaves the controller unchanged. A step that runs the base-class step to its end
  increments the flush counter, and when the counter reaches 1,000 it flushes the cache
  (afterwards no entry is dirty, and every buffered byte of a well-indexed cache is in
  memory) and resets the counter to 0; a step that replays a cached instruction leaves
  counter and cache unchanged.
\<close>

lemma switchBank_and_flush_tick:
  "(unat b < length (banks mbc) \<longrightarrow> switchBank b mbc = (None, mbc\<lparr>currentBank := b\<rparr>))
   \<and> (unat b \<ge> length (banks mbc) \<longrightarrow>
        switchBank b mbc
          = (Some (EmulatorException MEMORY_ACCESS_VIOLATION ''Invalid bank number''), mbc))
   \<and> memoryCache (snd (cpu_switchBank b e)) = memoryCache e
   \<and> cpu8080 (snd (cpu_switchBank b e)) = cpu8080 e
   \<and> (\<not> (debug = 0 \<and> replayable e) \<and> base debug (cpu8080 e) = (Inr cyc, c) \<longrightarrow>
        (if cacheFlushCounter e + 1 \<ge> 1000
         then cacheFlushCounter (snd (Emulate8080p base duration debug e)) = 0
            \<and> memoryCache (snd (Emulate8080p base duration debug e))
                = fst (flush (memoryCache e, memory c))
            \<and> memory (cpu8080 (snd (Emulate8080p base duration debug e)))
                = snd (flush (memoryCache e, memory c))
            \<and> (\<forall>i. \<not> (ce_valid (cache (memoryCache (snd (Emulate8080p base duration debug e))) i)
                      \<and> ce_dirty (cache (memoryCache (snd (Emulate8080p base duration debug e))) i)))
            \<and> (well_indexed (memoryCache e) \<longrightarrow>
                 (\<forall>i. ce_valid (cache (memoryCache e) i) \<and> ce_dirty (cache (memoryCache e) i) \<longrightarrow>
                    memory (cpu8080 (snd (Emulate8080p base duration debug e)))
                      (ce_address (cache (memoryCache e) i)) = ce_value (cache (memoryCache e) i)))
         else cacheFlushCounter (snd (Emulate8080p base duration debug e))
                = cacheFlushCounter e + 1
            \<and> memoryCache (snd (Emulate8080p base duration debug e)) = memoryCache e
            \<and> memory (cpu8080 (snd (Emulate8080p base duration debug e))) = memory c))
   \<and> (debug = 0 \<and> replayable e \<longrightarrow>
        cacheFlushCounter (snd (Emulate8080p base duration debug e)) = cacheFlushCounter e
      \<and> memoryCache (snd (Emulate8080p base duration debug e)) = memoryCache e
      \<and> memory (cpu8080 (snd (Emulate8080p base duration debug e))) = memory (cpu8080 e))"
proof -
  have fast: "cacheFlushCounter (snd (Emulate8080p base duration debug e)) = cacheFlushCounter e
      \<and> memoryCache (snd (Emulate8080p base duration debug e)) = memoryCache e
      \<and> memory (cpu8080 (snd (Emulate8080p base duration debug e))) = memory (cpu8080 e)"
    if "debug = 0 \<and> replayable e"
  proof -
    from that obtain cached where "instructionCache e (pc (state (cpu8080 e))) = Some cached"
      using replayable_entry by blast
    with that show ?thesis
      by (simp add: Emulate8080p_replay apply_cached_cache apply_cached_base_fields)
  qed
  have slow: "(if cacheFlushCounter e + 1 \<ge> 1000
         then cacheFlushCounter (snd (Emulate8080p base duration debug e)) = 0
            \<and> memoryCache (snd (Emulate8080p base duration debug e))
                = fst (flush (memoryCache e, memory c))
            \<and> memory (cpu8080 (snd (Emulate8080p base duration debug e)))
                = snd (flush (memoryCache e, memory c))
            \<and> (\<forall>i. \<not> (ce_valid (cache (memoryCache (snd (Emulate8080p base duration debug e))) i)
                      \<and> ce_dirty (cache (memoryCache (snd (Emulate8080p base duration debug e))) i)))
            \<and> (well_indexed (memoryCache e) \<longrightarrow>
                 (\<forall>i. ce_valid (cache (memoryCache e) i) \<and> ce_dirty (cache (memoryCache e) i) \<longrightarrow>
                    memory (cpu8080 (snd (Emulate8080p base duration debug e)))
                      (ce_address (cache (memoryCache e) i)) = ce_value (cache (memoryCache e) i)))
         else cacheFlushCounter (snd (Emulate8080p base duration debug e))
                = cacheFlushCounter e + 1
            \<and> memoryCache (snd (Emulate8080p base duration debug e)) = memoryCache e
            \<and> memory (cpu8080 (snd (Emulate8080p base duration debug e))) = memory c)"
    if h: "\<not> (debug = 0 \<and> replayable e) \<and> base debug (cpu8080 e) = (Inr cyc, c)"
  proof -
    from h have n: "Emulate8080p base duration debug e =
           execute_normally base duration debug (pc (state (cpu8080 e))) e"
      by (simp add: Emulate8080p_normal)
    from h have b: "base debug (cpu8080 e) = (Inr cyc, c)" by simp
    show ?thesis
      unfolding n
      using flush_no_dirty [of "memoryCache e" "memory c"]
        flush_commits [of "memoryCache e" _ "memory c"]
      by (simp add: execute_normally_tick [where base = base and debug = debug and e = e, OF b])
  qed
  show ?thesis
    using fast slow switchBank_valid [where b = b and mbc = mbc]
      switchBank_invalid [where b = b and mbc = mbc]
      cpu_switchBank_cache [where b = b and e = e]
    by blast
qed

subsection \<open>The byte cache on reachable CPUs\<close>


















end
